theory Spec2Isabelle
  imports Complex_Main "HOL-Library.Multiset" "HOL-Library.Sublist"
begin

section \<open>Python strings\<close>

text \<open>
  Strings are lists of 8-bit characters, read as the code points U+0000 to U+00FF.
  \<open>lower\<close> maps the capitals of that range to their small letters: \<open>A\<close> to \<open>Z\<close>, and
  U+00C0 to U+00DE without the multiplication sign U+00D7.
\<close>

definition lower_char :: "char \<Rightarrow> char" where
  "lower_char c =
     (case map_of
        (zip (''ABCDEFGHIJKLMNOPQRSTUVWXYZ'' @
          [CHR 0xC0, CHR 0xC1, CHR 0xC2, CHR 0xC3, CHR 0xC4, CHR 0xC5, CHR 0xC6, CHR 0xC7,
           CHR 0xC8, CHR 0xC9, CHR 0xCA, CHR 0xCB, CHR 0xCC, CHR 0xCD, CHR 0xCE, CHR 0xCF,
           CHR 0xD0, CHR 0xD1, CHR 0xD2, CHR 0xD3, CHR 0xD4, CHR 0xD5, CHR 0xD6, CHR 0xD8,
           CHR 0xD9, CHR 0xDA, CHR 0xDB, CHR 0xDC, CHR 0xDD, CHR 0xDE])
             (''abcdefghijklmnopqrstuvwxyz'' @
          [CHR 0xE0, CHR 0xE1, CHR 0xE2, CHR 0xE3, CHR 0xE4, CHR 0xE5, CHR 0xE6, CHR 0xE7,
           CHR 0xE8, CHR 0xE9, CHR 0xEA, CHR 0xEB, CHR 0xEC, CHR 0xED, CHR 0xEE, CHR 0xEF,
           CHR 0xF0, CHR 0xF1, CHR 0xF2, CHR 0xF3, CHR 0xF4, CHR 0xF5, CHR 0xF6, CHR 0xF8,
           CHR 0xF9, CHR 0xFA, CHR 0xFB, CHR 0xFC, CHR 0xFD, CHR 0xFE])) c of
        None \<Rightarrow> c
      | Some d \<Rightarrow> d)"

text \<open>
  The upper case of a character, for \<open>capitalize\<close>. The program capitalizes only the names
  of its own city list; the three small letters of the range whose capital lies outside
  it (U+00B5, U+00DF, U+00FF) are left as they are.
\<close>

definition upper_char :: "char \<Rightarrow> char" where
  "upper_char c =
     (case map_of
        (zip (''abcdefghijklmnopqrstuvwxyz'' @
          [CHR 0xE0, CHR 0xE1, CHR 0xE2, CHR 0xE3, CHR 0xE4, CHR 0xE5, CHR 0xE6, CHR 0xE7,
           CHR 0xE8, CHR 0xE9, CHR 0xEA, CHR 0xEB, CHR 0xEC, CHR 0xED, CHR 0xEE, CHR 0xEF,
           CHR 0xF0, CHR 0xF1, CHR 0xF2, CHR 0xF3, CHR 0xF4, CHR 0xF5, CHR 0xF6, CHR 0xF8,
           CHR 0xF9, CHR 0xFA, CHR 0xFB, CHR 0xFC, CHR 0xFD, CHR 0xFE])
             (''ABCDEFGHIJKLMNOPQRSTUVWXYZ'' @
          [CHR 0xC0, CHR 0xC1, CHR 0xC2, CHR 0xC3, CHR 0xC4, CHR 0xC5, CHR 0xC6, CHR 0xC7,
           CHR 0xC8, CHR 0xC9, CHR 0xCA, CHR 0xCB, CHR 0xCC, CHR 0xCD, CHR 0xCE, CHR 0xCF,
           CHR 0xD0, CHR 0xD1, CHR 0xD2, CHR 0xD3, CHR 0xD4, CHR 0xD5, CHR 0xD6, CHR 0xD8,
           CHR 0xD9, CHR 0xDA, CHR 0xDB, CHR 0xDC, CHR 0xDD, CHR 0xDE])) c of
        None \<Rightarrow> c
      | Some d \<Rightarrow> d)"

definition py_lower :: "string \<Rightarrow> string" where
  "py_lower s = map lower_char s"

text \<open>\<open>s.capitalize()\<close>: first character upper case, the rest lower case.\<close>

fun capitalize :: "string \<Rightarrow> string" where
  "capitalize [] = []"
| "capitalize (c # cs) = upper_char c # py_lower cs"

fun startswith :: "string \<Rightarrow> string \<Rightarrow> bool" where
  "startswith s [] = True"
| "startswith [] (p # ps) = False"
| "startswith (c # cs) (p # ps) = (c = p \<and> startswith cs ps)"

text \<open>\<open>w in s\<close> on strings: \<open>w\<close> occurs in \<open>s\<close> as a contiguous substring.\<close>

fun py_in :: "string \<Rightarrow> string \<Rightarrow> bool" where
  "py_in w [] = (w = [])"
| "py_in w (c # cs) = (startswith (c # cs) w \<or> py_in w cs)"

text \<open>\<open>any(w in s for w in ws)\<close>.\<close>

definition any_in :: "string list \<Rightarrow> string \<Rightarrow> bool" where
  "any_in ws s = list_ex (\<lambda>w. py_in w s) ws"

text \<open>Python slicing \<open>xs[:k]\<close> (and pandas \<open>head(k)\<close>): a negative \<open>k\<close> counts from the end.\<close>

definition py_take :: "int \<Rightarrow> 'a list \<Rightarrow> 'a list" where
  "py_take k xs = (if 0 \<le> k then take (nat k) xs else take (length xs - nat (- k)) xs)"

datatype py_error = KeyError | IndexError | ValueError | AttributeError | CollaboratorError

section \<open>rag_engine.py: HospitalRAG\<close>

text \<open>
  A row of \<open>hospitals_df\<close>, and the frame itself: its column labels and its rows. Reading a
  column whose label is missing raises \<open>KeyError\<close>.
\<close>

record hospital_row =
  row_name :: string
  row_address :: string
  row_city :: string

record dataframe =
  df_columns :: "string list"
  df_rows :: "hospital_row list"

record meta =
  meta_name :: string
  meta_city :: string
  meta_address :: string
  meta_index :: nat

text \<open>
  A result dictionary. \<open>search_hospitals\<close> sets the key \<open>full_text\<close>, the exact pass of
  \<open>search_by_name_and_city\<close> does not.
\<close>

record hospital =
  name :: string
  address :: string
  city :: string
  full_text :: "string option"
  score :: real
  relevance :: string

text \<open>
  The engine. The fitted vectorizer is an object of scikit-learn: its \<open>transform\<close> is taken
  as a function from the query to its vector, which may raise. \<open>tfidf_matrix\<close> is the list of
  the document vectors.
\<close>

record rag_engine =
  hospitals_df :: "dataframe option"
  documents :: "string list"
  metadata :: "meta list"
  vectorizer :: "(string \<Rightarrow> py_error + real list) option"
  tfidf_matrix :: "real list list option"

subsection \<open>Cosine similarity and argsort\<close>

text \<open>
  \<open>sklearn.metrics.pairwise.cosine_similarity\<close>: both sides are L2-normalised row by row, a
  row of norm zero is left as it is, and the result is the matrix of dot products. It
  raises \<open>ValueError\<close> on an empty matrix and on a mismatch of dimensions. Scores are
  modelled as reals.
\<close>

definition dot :: "real list \<Rightarrow> real list \<Rightarrow> real" where
  "dot u v = sum_list (map2 (*) u v)"

definition normalize :: "real list \<Rightarrow> real list" where
  "normalize v = (let n = sqrt (dot v v) in map (\<lambda>x. x / (if n = 0 then 1 else n)) v)"

definition cosine_similarity :: "real list \<Rightarrow> real list list \<Rightarrow> py_error + real list" where
  "cosine_similarity qv M =
     (if M = [] \<or> list_ex (\<lambda>row. length row \<noteq> length qv) M then Inl ValueError
      else Inr (map (\<lambda>row. dot (normalize qv) (normalize row)) M))"

text \<open>
  \<open>np.argsort\<close> returns a permutation of the indices that lists the values in ascending
  order. Its default sort promises nothing about equal values, so the engine is modelled
  over any function with that contract. \<open>stable_argsort\<close> is the instance that keeps equal
  values in index order, which is what NumPy's insertion sort does on short arrays.
\<close>

definition argsort_spec :: "(real list \<Rightarrow> nat list) \<Rightarrow> bool" where
  "argsort_spec f \<longleftrightarrow>
     (\<forall>xs. mset (f xs) = mset [0..<length xs] \<and> sorted (map (\<lambda>i. xs ! i) (f xs)))"

definition stable_argsort :: "real list \<Rightarrow> nat list" where
  "stable_argsort xs = sort_key (\<lambda>i. xs ! i) [0..<length xs]"

subsection \<open>search_hospitals\<close>

definition default_score_threshold :: real where
  "default_score_threshold = 0.1"

definition relevance_of :: "real \<Rightarrow> string" where
  "relevance_of s = (if s > 0.5 then ''high'' else if s > 0.2 then ''medium'' else ''low'')"

definition mk_hospital :: "rag_engine \<Rightarrow> real list \<Rightarrow> nat \<Rightarrow> hospital" where
  "mk_hospital eng sims idx =
     \<lparr>name = meta_name (metadata eng ! idx),
      address = meta_address (metadata eng ! idx),
      city = meta_city (metadata eng ! idx),
      full_text = Some (documents eng ! idx),
      score = sims ! idx,
      relevance = relevance_of (sims ! idx)\<rparr>"

text \<open>\<open>top_indices = np.argsort(similarities)[::-1][:k]\<close>\<close>

definition top_indices :: "(real list \<Rightarrow> nat list) \<Rightarrow> real list \<Rightarrow> int \<Rightarrow> nat list" where
  "top_indices argsort sims k = py_take k (rev (argsort sims))"

text \<open>
  The loop over \<open>top_indices\<close>. An index that passes the test and lies outside
  \<open>documents\<close> raises \<open>IndexError\<close>, as does one outside \<open>similarities\<close>.
\<close>

fun collect :: "rag_engine \<Rightarrow> real list \<Rightarrow> real \<Rightarrow> nat list \<Rightarrow> hospital list
    \<Rightarrow> py_error + hospital list" where
  "collect eng sims thr [] hospitals = Inr hospitals"
| "collect eng sims thr (idx # rest) hospitals =
     (if idx < length (metadata eng) then
        (if length sims \<le> idx then Inl IndexError
         else if sims ! idx \<ge> thr then
           (if length (documents eng) \<le> idx then Inl IndexError
            else collect eng sims thr rest (hospitals @ [mk_hospital eng sims idx]))
         else collect eng sims thr rest hospitals)
      else collect eng sims thr rest hospitals)"

text \<open>The body of the \<open>try\<close> block.\<close>

definition search_hospitals_try :: "(real list \<Rightarrow> nat list) \<Rightarrow> rag_engine \<Rightarrow> string \<Rightarrow> int \<Rightarrow> real
    \<Rightarrow> py_error + hospital list" where
  "search_hospitals_try argsort eng query k score_threshold =
     (case vectorizer eng of
        None \<Rightarrow> Inl AttributeError
      | Some transform \<Rightarrow>
          (case tfidf_matrix eng of
             None \<Rightarrow> Inl AttributeError
           | Some M \<Rightarrow>
               (case transform query of
                  Inl e \<Rightarrow> Inl e
                | Inr query_vec \<Rightarrow>
                    (case cosine_similarity query_vec M of
                       Inl e \<Rightarrow> Inl e
                     | Inr similarities \<Rightarrow>
                         collect eng similarities score_threshold
                           (top_indices argsort similarities k) []))))"

definition search_hospitals :: "(real list \<Rightarrow> nat list) \<Rightarrow> rag_engine \<Rightarrow> string \<Rightarrow> int \<Rightarrow> real
    \<Rightarrow> py_error + hospital list" where
  "search_hospitals argsort eng query k score_threshold =
     (if vectorizer eng = None \<or> tfidf_matrix eng = None then Inr []
      else (case search_hospitals_try argsort eng query k score_threshold of
              Inl e \<Rightarrow> Inr []
            | Inr hospitals \<Rightarrow> Inr hospitals))"

subsection \<open>search_by_name_and_city\<close>

definition column :: "dataframe \<Rightarrow> string \<Rightarrow> (hospital_row \<Rightarrow> string) \<Rightarrow> py_error + string list" where
  "column df label sel =
     (if label \<in> set (df_columns df) then Inr (map sel (df_rows df)) else Inl KeyError)"

text \<open>\<open>series.str.lower().str.contains(pat.lower(), na=False, regex=False)\<close>\<close>

definition str_contains :: "string list \<Rightarrow> string \<Rightarrow> bool list" where
  "str_contains series pat = map (\<lambda>c. py_in (py_lower pat) (py_lower c)) series"

text \<open>\<open>if city:\<close> is false on \<open>None\<close> and on the empty string.\<close>

definition truthy :: "string option \<Rightarrow> bool" where
  "truthy s = (case s of None \<Rightarrow> False | Some t \<Rightarrow> t \<noteq> [])"

definition build_mask :: "dataframe \<Rightarrow> string \<Rightarrow> string option \<Rightarrow> py_error + bool list" where
  "build_mask df nm cty =
     (case column df ''hospital name'' row_name of
        Inl e \<Rightarrow> Inl e
      | Inr names \<Rightarrow>
          (if truthy cty then
             (case column df ''city'' row_city of
                Inl e \<Rightarrow> Inl e
              | Inr cities \<Rightarrow>
                  Inr (map2 (\<and>) (str_contains names nm) (str_contains cities (the cty))))
           else Inr (str_contains names nm)))"

text \<open>\<open>df[mask]\<close>: the rows whose mask is true, in the order of the frame.\<close>

definition select_rows :: "bool list \<Rightarrow> hospital_row list \<Rightarrow> hospital_row list" where
  "select_rows msk rows = map snd (filter fst (zip msk rows))"

definition exact_entry :: "hospital_row \<Rightarrow> hospital" where
  "exact_entry r =
     \<lparr>name = row_name r, address = row_address r, city = row_city r,
      full_text = None, score = 1.0, relevance = ''high''\<rparr>"

text \<open>
  The first pass: the mask, then the loop over \<open>text_results.head(k)\<close>, which reads the three
  columns of every row it visits.
\<close>

definition first_pass :: "dataframe \<Rightarrow> string \<Rightarrow> string option \<Rightarrow> int \<Rightarrow> py_error + hospital list" where
  "first_pass df nm cty k =
     (case build_mask df nm cty of
        Inl e \<Rightarrow> Inl e
      | Inr msk \<Rightarrow>
          (let visited = py_take k (select_rows msk (df_rows df)) in
           if visited \<noteq> [] \<and> \<not> set [''hospital name'', ''address'', ''city''] \<subseteq> set (df_columns df)
           then Inl KeyError
           else Inr (map exact_entry visited)))"

text \<open>The entries that the first pass hands on: none when there is no frame or when it raises.\<close>

definition exact_pass :: "rag_engine \<Rightarrow> string \<Rightarrow> string option \<Rightarrow> int \<Rightarrow> hospital list" where
  "exact_pass eng nm cty k =
     (case hospitals_df eng of
        None \<Rightarrow> []
      | Some df \<Rightarrow> (case first_pass df nm cty k of Inl e \<Rightarrow> [] | Inr hospitals \<Rightarrow> hospitals))"

definition fallback_query :: "string \<Rightarrow> string option \<Rightarrow> string" where
  "fallback_query nm cty =
     (if truthy cty then nm @ '' hospital in '' @ the cty else nm @ '' hospital'')"

text \<open>The loop over \<open>semantic_results\<close>, with its \<open>break\<close>.\<close>

fun append_new :: "int \<Rightarrow> string list \<Rightarrow> hospital list \<Rightarrow> hospital list \<Rightarrow> hospital list" where
  "append_new k existing_names hospitals [] = hospitals"
| "append_new k existing_names hospitals (result # rest) =
     (if py_lower (name result) \<notin> set existing_names then
        (if int (length (hospitals @ [result])) \<ge> k then hospitals @ [result]
         else append_new k existing_names (hospitals @ [result]) rest)
      else append_new k existing_names hospitals rest)"

definition search_by_name_try :: "(real list \<Rightarrow> nat list) \<Rightarrow> rag_engine \<Rightarrow> dataframe \<Rightarrow> string
    \<Rightarrow> string option \<Rightarrow> int \<Rightarrow> py_error + hospital list" where
  "search_by_name_try argsort eng df nm cty k =
     (case first_pass df nm cty k of
        Inl e \<Rightarrow> Inl e
      | Inr hospitals \<Rightarrow>
          (if int (length hospitals) < k then
             (case search_hospitals argsort eng (fallback_query nm cty) k default_score_threshold of
                Inl e \<Rightarrow> Inl e
              | Inr semantic_results \<Rightarrow>
                  Inr (py_take k
                    (append_new k (map (\<lambda>h. py_lower (name h)) hospitals) hospitals
                       semantic_results)))
           else Inr (py_take k hospitals)))"

definition search_by_name_and_city :: "(real list \<Rightarrow> nat list) \<Rightarrow> rag_engine \<Rightarrow> string
    \<Rightarrow> string option \<Rightarrow> int \<Rightarrow> py_error + hospital list" where
  "search_by_name_and_city argsort eng nm cty k =
     (case hospitals_df eng of
        None \<Rightarrow> Inr []
      | Some df \<Rightarrow>
          (case search_by_name_try argsort eng df nm cty k of
             Inl e \<Rightarrow> search_hospitals argsort eng (fallback_query nm cty) k default_score_threshold
           | Inr hospitals \<Rightarrow> Inr hospitals))"

subsection \<open>A concrete engine\<close>

text \<open>
  The built-in demo catalog of \<open>_create_dummy_data\<close>, indexed over a vocabulary of two terms
  (\<open>bangalore\<close>, \<open>delhi\<close>). It is the engine on which the theorems are evaluated.
\<close>

definition demo_transform :: "string \<Rightarrow> py_error + real list" where
  "demo_transform q =
     Inr [if py_in ''bangalore'' (py_lower q) then 1 else 0,
          if py_in ''delhi'' (py_lower q) then 1 else 0]"

definition demo_engine :: rag_engine where
  "demo_engine =
     \<lparr>hospitals_df = Some
        \<lparr>df_columns = [''hospital name'', ''address'', ''city''],
         df_rows =
           [\<lparr>row_name = ''Apollo Hospital'', row_address = ''123 Main St'', row_city = ''Bangalore''\<rparr>,
            \<lparr>row_name = ''Manipal Hospital'', row_address = ''456 Park Ave'', row_city = ''Bangalore''\<rparr>,
            \<lparr>row_name = ''Fortis Hospital'', row_address = ''789 Lake Rd'', row_city = ''Delhi''\<rparr>]\<rparr>,
      documents =
        [''Apollo Hospital Bangalore 123 Main St hospital'',
         ''Manipal Hospital Bangalore 456 Park Ave hospital'',
         ''Fortis Hospital Delhi 789 Lake Rd hospital''],
      metadata =
        [\<lparr>meta_name = ''Apollo Hospital'', meta_city = ''Bangalore'', meta_address = ''123 Main St'', meta_index = 0\<rparr>,
         \<lparr>meta_name = ''Manipal Hospital'', meta_city = ''Bangalore'', meta_address = ''456 Park Ave'', meta_index = 1\<rparr>,
         \<lparr>meta_name = ''Fortis Hospital'', meta_city = ''Delhi'', meta_address = ''789 Lake Rd'', meta_index = 2\<rparr>],
      vectorizer = Some demo_transform,
      tfidf_matrix = Some [[1, 0], [1, 0], [0, 1]]\<rparr>"

section \<open>More of Python's strings\<close>

text \<open>
  The source writes its escapes with two backslashes (\<open>"\\n"\<close>, \<open>'\\r'\<close>, and
  \<open>r'\\b(\\d+|three|five|ten)\\b'\<close>), so each of them stands for a backslash followed by a
  letter, not for a control character.
\<close>

definition backslash :: char where
  "backslash = CHR 0x5C"

definition backslash_n :: string where
  "backslash_n = [backslash, CHR ''n'']"

definition backslash_r :: string where
  "backslash_r = [backslash, CHR ''r'']"

definition backslash_b :: string where
  "backslash_b = [backslash, CHR ''b'']"

text \<open>\<open>xs[i:]\<close>: a negative \<open>i\<close> counts from the end, and \<open>xs[-0:]\<close> is \<open>xs[0:]\<close>.\<close>

definition py_drop :: "int \<Rightarrow> 'a list \<Rightarrow> 'a list" where
  "py_drop i xs = (if 0 \<le> i then drop (nat i) xs else drop (length xs - nat (- i)) xs)"

text \<open>
  \<open>str.isspace\<close> on the 8-bit range: the controls U+0009 to U+000D and U+001C to U+001F,
  the space, the next-line control U+0085 and the no-break space U+00A0. \<open>strip\<close> removes
  them from both ends.
\<close>

definition is_space :: "char \<Rightarrow> bool" where
  "is_space c \<longleftrightarrow>
     List.member [CHR 0x09, CHR 0x0A, CHR 0x0B, CHR 0x0C, CHR 0x0D,
                  CHR 0x1C, CHR 0x1D, CHR 0x1E, CHR 0x1F, CHR 0x20,
                  CHR 0x85, CHR 0xA0] c"

definition strip :: "string \<Rightarrow> string" where
  "strip s = rev (dropWhile is_space (rev (dropWhile is_space s)))"

text \<open>\<open>s.replace(old, new)\<close> for a non-empty \<open>old\<close>, which is all the program uses.\<close>

function replace :: "string \<Rightarrow> string \<Rightarrow> string \<Rightarrow> string" where
  "replace old new [] = []"
| "replace old new (c # cs) =
     (if old \<noteq> [] \<and> startswith (c # cs) old
      then new @ replace old new (drop (length old) (c # cs))
      else c # replace old new cs)"
  by pat_completeness auto
termination
  by (relation "measure (\<lambda>(old, new, s). length s)") auto

text \<open>\<open>str(n)\<close> for a length, and \<open>sep.join(xs)\<close>.\<close>

definition digit_char :: "nat \<Rightarrow> char" where
  "digit_char d = ''0123456789'' ! d"

function str_nat :: "nat \<Rightarrow> string" where
  "str_nat n = (if n < 10 then [digit_char n] else str_nat (n div 10) @ [digit_char (n mod 10)])"
  by pat_completeness auto
termination
  by (relation "measure id") auto

declare str_nat.simps [simp del]

fun join :: "string \<Rightarrow> string list \<Rightarrow> string" where
  "join sep [] = []"
| "join sep [x] = x"
| "join sep (x # y # ys) = x @ sep @ join sep (y # ys)"

text \<open>
  \<open>s.isdigit()\<close> on the 8-bit range: the ten digits and the superscripts U+00B2, U+00B3 and
  U+00B9. \<open>int(s)\<close> on a string that passed \<open>isdigit\<close>: the value of its decimal digits, and
  \<open>ValueError\<close> when it holds a superscript.
\<close>

definition isdigit :: "string \<Rightarrow> bool" where
  "isdigit s \<longleftrightarrow>
     s \<noteq> [] \<and> list_all (\<lambda>c. List.member (''0123456789'' @ [CHR 0xB2, CHR 0xB3, CHR 0xB9]) c) s"

definition digit_value :: "char \<Rightarrow> int option" where
  "digit_value = map_of (zip ''0123456789'' [0, 1, 2, 3, 4, 5, 6, 7, 8, 9])"

fun py_int_from :: "int \<Rightarrow> string \<Rightarrow> py_error + int" where
  "py_int_from acc [] = Inr acc"
| "py_int_from acc (c # cs) =
     (case digit_value c of
        None \<Rightarrow> Inl ValueError
      | Some d \<Rightarrow> py_int_from (10 * acc + d) cs)"

definition py_int :: "string \<Rightarrow> py_error + int" where
  "py_int s = (if s = [] then Inl ValueError else py_int_from 0 s)"

section \<open>agent.py: ConversationMemory\<close>

record interaction =
  user :: string
  assistant :: string
  hospitals :: "hospital list"

text \<open>The dictionary \<open>context\<close>: each of its three keys is absent or holds a value.\<close>

record memory_context =
  last_cities :: "string list option"
  last_hospital_names :: "string list option"
  last_intent :: "string option"

record conversation_memory =
  history :: "interaction list"
  max_history :: int
  ctx :: memory_context

definition empty_context :: memory_context where
  "empty_context = \<lparr>last_cities = None, last_hospital_names = None, last_intent = None\<rparr>"

definition init_memory :: "int \<Rightarrow> conversation_memory" where
  "init_memory n = \<lparr>history = [], max_history = n, ctx = empty_context\<rparr>"

text \<open>
  \<open>list(set(xs))\<close> lists the distinct elements of \<open>xs\<close> in an order that Python does not fix.
  The memory is modelled over any listing function with that contract; \<open>remdups\<close> is one.
\<close>

definition set_list_spec :: "(string list \<Rightarrow> string list) \<Rightarrow> bool" where
  "set_list_spec f \<longleftrightarrow> (\<forall>xs. set (f xs) = set xs \<and> distinct (f xs))"

definition update_context :: "(string list \<Rightarrow> string list) \<Rightarrow> memory_context \<Rightarrow> string
    \<Rightarrow> hospital list \<Rightarrow> memory_context" where
  "update_context set_list c query hs =
     (let c1 = (if hs \<noteq> []
                then c\<lparr>last_cities := Some (set_list (map city hs)),
                       last_hospital_names := Some (map name hs)\<rparr>
                else c);
          query_lower = py_lower query
      in if any_in [''confirm'', ''check'', ''is''] query_lower
         then c1\<lparr>last_intent := Some ''confirmation''\<rparr>
         else if any_in [''find'', ''show'', ''list'', ''tell''] query_lower
         then c1\<lparr>last_intent := Some ''search''\<rparr>
         else if any_in [''more'', ''other'', ''additional''] query_lower
         then c1\<lparr>last_intent := Some ''followup''\<rparr>
         else c1)"

definition add_interaction :: "(string list \<Rightarrow> string list) \<Rightarrow> conversation_memory \<Rightarrow> string
    \<Rightarrow> string \<Rightarrow> hospital list \<Rightarrow> conversation_memory" where
  "add_interaction set_list m user_query ai_response hs =
     (let h1 = history m @ [\<lparr>user = user_query, assistant = ai_response, hospitals = hs\<rparr>];
          h2 = (if int (length h1) > max_history m then py_drop (- max_history m) h1 else h1)
      in m\<lparr>history := h2, ctx := update_context set_list (ctx m) user_query hs\<rparr>)"

definition get_conversation_context :: "conversation_memory \<Rightarrow> string" where
  "get_conversation_context m =
     (if history m = [] then []
      else ''Previous conversation:'' @ backslash_n @
           concat (map (\<lambda>i. ''User: '' @ user i @ backslash_n @
                             ''Assistant: '' @ assistant i @ backslash_n)
                       (py_drop (- 3) (history m))))"

text \<open>\<open>context['last_cities'][0]\<close> raises \<open>IndexError\<close> on an empty list.\<close>

definition get_last_city :: "conversation_memory \<Rightarrow> py_error + string option" where
  "get_last_city m =
     (case last_cities (ctx m) of
        None \<Rightarrow> Inr None
      | Some [] \<Rightarrow> Inl IndexError
      | Some (c # cs) \<Rightarrow> Inr (Some c))"

definition clear :: "conversation_memory \<Rightarrow> conversation_memory" where
  "clear m = m\<lparr>history := [], ctx := empty_context\<rparr>"

text \<open>The calls that reach a memory, and a memory after a sequence of them.\<close>

datatype memory_call = Add string string "hospital list" | Clear

fun apply_call :: "(string list \<Rightarrow> string list) \<Rightarrow> conversation_memory \<Rightarrow> memory_call
    \<Rightarrow> conversation_memory" where
  "apply_call set_list m (Add q a hs) = add_interaction set_list m q a hs"
| "apply_call set_list m Clear = clear m"

definition run_calls :: "(string list \<Rightarrow> string list) \<Rightarrow> conversation_memory \<Rightarrow> memory_call list
    \<Rightarrow> conversation_memory" where
  "run_calls set_list m calls = foldl (apply_call set_list) m calls"

text \<open>A turn as a triple of its arguments: the interaction it records and the call it is.\<close>

definition turn_of :: "string \<times> string \<times> hospital list \<Rightarrow> interaction" where
  "turn_of t = (case t of (q, a, hs) \<Rightarrow> \<lparr>user = q, assistant = a, hospitals = hs\<rparr>)"

definition add_of :: "string \<times> string \<times> hospital list \<Rightarrow> memory_call" where
  "add_of t = (case t of (q, a, hs) \<Rightarrow> Add q a hs)"

text \<open>Whether a turn with a non-empty result set has been recorded since the last \<open>clear\<close>.\<close>

fun city_recorded :: "memory_call list \<Rightarrow> bool" where
  "city_recorded [] = False"
| "city_recorded (Add q a hs # calls) = (city_recorded calls \<or> (hs \<noteq> [] \<and> Clear \<notin> set calls))"
| "city_recorded (Clear # calls) = city_recorded calls"

section \<open>agent.py: LoopAIAgent\<close>

record agent =
  session_started :: bool
  memory :: conversation_memory

text \<open>The agent as \<open>__init__\<close> leaves it: a memory of cap 10, no session started.\<close>

definition init_agent :: agent where
  "init_agent = \<lparr>session_started = False, memory = init_memory 10\<rparr>"

definition greeting_message :: string where
  "greeting_message = ''Hello! I'm Loop AI Health Assistant, your dedicated guide to finding hospitals in the Loop Health network. I can help you locate hospitals by city, verify if specific facilities are in your network, and answer questions about our healthcare partners. How may I assist you today?''"

definition refusal_message :: string where
  "refusal_message =
     ''I'm '' @ ''sor'' @ ''ry, I can only assist with hospital queries. '' @
     ''Let me connect you with a human agent.''"

definition trouble_message :: string where
  "trouble_message = ''I'm having trouble processing your request. Please try again.''"

definition intro_text :: string where
  "intro_text = ''Hello! I'm Loop AI Health Assistant. ''"

definition is_hospital_related :: "string \<Rightarrow> bool" where
  "is_hospital_related query =
     any_in [''hospital'', ''clinic'', ''medical'', ''health'', ''doctor'', ''healthcare'', ''network'',
             ''manipal'', ''apollo'', ''fortis'', ''bangalore'', ''delhi'', ''location'', ''address'',
             ''find'', ''near'', ''around'', ''city'', ''confirm'', ''check'', ''available'', ''list'', ''tell'']
       (py_lower query)"

subsection \<open>extract_intent\<close>

record intent =
  intent_type :: string
  intent_city :: "string option"
  hospital_name :: "string option"
  intent_count :: int

text \<open>
  The count pattern, as the source spells it: a backslash and \<open>b\<close>, then the group (a
  backslash followed by one or more \<open>d\<close>, or \<open>three\<close>, or \<open>five\<close>, or \<open>ten\<close>), then a
  backslash and \<open>b\<close>. \<open>match_here\<close> matches it at the head of a string and returns the group,
  trying the alternatives in their order; \<open>findall_first\<close> is the group of the leftmost
  match, that is \<open>numbers[0]\<close>, when \<open>numbers\<close> is not empty.
\<close>

definition alt_ds :: "string \<Rightarrow> string option" where
  "alt_ds r =
     (case r of
        [] \<Rightarrow> None
      | c # r' \<Rightarrow>
          (let ds = takeWhile (\<lambda>x. x = CHR ''d'') r' in
           if c = backslash \<and> ds \<noteq> [] \<and> startswith (dropWhile (\<lambda>x. x = CHR ''d'') r') backslash_b
           then Some (backslash # ds) else None))"

definition alt_word :: "string \<Rightarrow> string \<Rightarrow> string option" where
  "alt_word w r = (if startswith r (w @ backslash_b) then Some w else None)"

definition match_here :: "string \<Rightarrow> string option" where
  "match_here s =
     (if startswith s backslash_b then
        (let r = drop 2 s in
         case alt_ds r of
           Some g \<Rightarrow> Some g
         | None \<Rightarrow>
             (case alt_word ''three'' r of
                Some g \<Rightarrow> Some g
              | None \<Rightarrow>
                  (case alt_word ''five'' r of
                     Some g \<Rightarrow> Some g
                   | None \<Rightarrow> alt_word ''ten'' r)))
      else None)"

fun findall_first :: "string \<Rightarrow> string option" where
  "findall_first [] = None"
| "findall_first (c # cs) =
     (case match_here (c # cs) of Some g \<Rightarrow> Some g | None \<Rightarrow> findall_first cs)"

definition num_map :: "string \<Rightarrow> int option" where
  "num_map = map_of [(''three'', 3), (''five'', 5), (''ten'', 10)]"

text \<open>
  \<open>num_map.get(g, int(g)) if g.isdigit() else num_map.get(g, 3)\<close>: Python evaluates the
  default \<open>int(g)\<close> before the lookup, so its exception comes first.
\<close>

definition count_of :: "string \<Rightarrow> py_error + int" where
  "count_of g =
     (if isdigit g then
        (case py_int g of
           Inl e \<Rightarrow> Inl e
         | Inr v \<Rightarrow> (case num_map g of None \<Rightarrow> Inr v | Some n \<Rightarrow> Inr n))
      else (case num_map g of None \<Rightarrow> Inr 3 | Some n \<Rightarrow> Inr n))"

definition intent_type_of :: "string \<Rightarrow> string" where
  "intent_type_of query_lower =
     (if any_in [''confirm'', ''is'', ''check'', ''verify''] query_lower then ''confirmation''
      else if any_in [''more'', ''other'', ''additional''] query_lower then ''followup''
      else ''search'')"

definition extract_intent :: "conversation_memory \<Rightarrow> string \<Rightarrow> py_error + intent" where
  "extract_intent mem query =
     (let query_lower = py_lower query;
          ty = intent_type_of query_lower;
          cty = map_option capitalize
                  (find (\<lambda>c. py_in c query_lower)
                     [''bangalore'', ''bengaluru'', ''delhi'', ''mumbai'', ''chennai'', ''hyderabad'',
                      ''pune'', ''kolkata'']);
          hosp = find (\<lambda>h. py_in h query_lower)
                   [''manipal'', ''apollo'', ''fortis'', ''max'', ''medanta'', ''artemis''];
          cnt = (case findall_first query_lower of None \<Rightarrow> Inr 3 | Some g \<Rightarrow> count_of g)
      in if cty = None \<and> ty = ''followup'' then
           (case get_last_city mem of
              Inl e \<Rightarrow> Inl e
            | Inr last_city \<Rightarrow>
                (case cnt of
                   Inl e \<Rightarrow> Inl e
                 | Inr n \<Rightarrow>
                     Inr \<lparr>intent_type = ty, intent_city = last_city, hospital_name = hosp,
                          intent_count = n\<rparr>))
         else
           (case cnt of
              Inl e \<Rightarrow> Inl e
            | Inr n \<Rightarrow>
                Inr \<lparr>intent_type = ty, intent_city = cty, hospital_name = hosp,
                     intent_count = n\<rparr>))"

subsection \<open>process_query\<close>

definition retrieve :: "(real list \<Rightarrow> nat list) \<Rightarrow> rag_engine \<Rightarrow> intent \<Rightarrow> string
    \<Rightarrow> py_error + hospital list" where
  "retrieve argsort eng it user_query =
     (if intent_type it = ''confirmation'' \<and> truthy (hospital_name it)
      then search_by_name_and_city argsort eng (the (hospital_name it)) (intent_city it)
             (intent_count it)
      else search_hospitals argsort eng user_query (intent_count it) default_score_threshold)"

fun enumerate_lines :: "nat \<Rightarrow> hospital list \<Rightarrow> string" where
  "enumerate_lines i [] = []"
| "enumerate_lines i (h # hs) =
     str_nat i @ ''. '' @ name h @ '' in '' @ city h @ backslash_n @
     ''   Address: '' @ address h @ backslash_n @ enumerate_lines (Suc i) hs"

definition context_block :: "hospital list \<Rightarrow> string" where
  "context_block hs =
     (if hs \<noteq> []
      then ''Found '' @ str_nat (length hs) @ '' hospital(s):'' @ backslash_n @
           enumerate_lines 1 (py_take 3 hs)
      else ''No hospitals found.'')"

definition build_prompt :: "string \<Rightarrow> string \<Rightarrow> string \<Rightarrow> string" where
  "build_prompt context conversation_context user_query =
     ''Context: '' @ context @ backslash_n @ conversation_context @ backslash_n @
     ''User: '' @ user_query @ backslash_n @ backslash_n @
     ''Provide a concise voice response (2-3 sentences, NO newlines).''"

definition clean :: "string \<Rightarrow> string" where
  "clean content = replace backslash_r '' '' (replace backslash_n '' '' (strip content))"

definition acceptable :: "string \<Rightarrow> bool" where
  "acceptable answer \<longleftrightarrow>
     20 < length answer \<and> length answer < 500 \<and> \<not> startswith answer ''I apologize''"

text \<open>
  The loop \<open>for attempt in range(1, 4)\<close>. The generator is external: \<open>chat attempt\<close> is the
  text of its reply at that attempt, or the exception it raises. The loop returns the
  accepted answer, or nothing when it runs to its end, or re-raises at the third attempt.
\<close>

fun attempt_loop :: "(nat \<Rightarrow> py_error + string) \<Rightarrow> nat list \<Rightarrow> py_error + string option" where
  "attempt_loop chat [] = Inr None"
| "attempt_loop chat (attempt # rest) =
     (case chat attempt of
        Inl e \<Rightarrow> (if attempt = 3 then Inl e else attempt_loop chat rest)
      | Inr content \<Rightarrow>
          (if acceptable (clean content) then Inr (Some (clean content))
           else attempt_loop chat rest))"

definition fallback_answer :: "hospital list \<Rightarrow> string" where
  "fallback_answer hs =
     (if hs \<noteq> []
      then ''I found '' @ str_nat (length hs) @ '' hospitals: '' @
           join '', '' (map name (py_take 3 hs)) @ ''.''
      else ''I couldn't find that hospital. Could you provide more details?'')"

text \<open>
  The body of the outer \<open>try\<close>: its outcome and the agent it leaves. An exception leaves
  the flag \<open>session_started\<close> as set and the memory as it was.
\<close>

definition process_query_try :: "(real list \<Rightarrow> nat list) \<Rightarrow> (string list \<Rightarrow> string list)
    \<Rightarrow> (string \<Rightarrow> nat \<Rightarrow> py_error + string) \<Rightarrow> rag_engine \<Rightarrow> agent \<Rightarrow> string \<Rightarrow> bool
    \<Rightarrow> (py_error + string) \<times> agent" where
  "process_query_try argsort set_list chat eng ag user_query is_first_message =
     (let first = (is_first_message \<or> \<not> session_started ag);
          ag1 = (if first then ag\<lparr>session_started := True\<rparr> else ag);
          intro = (if first then intro_text else [])
      in if first \<and> List.member [''hi'', ''hello'', ''hey'', ''start'', ''help'']
                       (py_lower (strip user_query))
         then (Inr greeting_message, ag1)
         else if \<not> is_hospital_related user_query then (Inr refusal_message, ag1)
         else
           (case extract_intent (memory ag1) user_query of
              Inl e \<Rightarrow> (Inl e, ag1)
            | Inr it \<Rightarrow>
                (case retrieve argsort eng it user_query of
                   Inl e \<Rightarrow> (Inl e, ag1)
                 | Inr hs \<Rightarrow>
                     (case attempt_loop
                             (chat (build_prompt (context_block hs)
                                      (get_conversation_context (memory ag1)) user_query))
                             [1, 2, 3] of
                        Inl e \<Rightarrow> (Inl e, ag1)
                      | Inr (Some answer) \<Rightarrow>
                          (Inr (intro @ answer),
                           ag1\<lparr>memory := add_interaction set_list (memory ag1) user_query answer hs\<rparr>)
                      | Inr None \<Rightarrow>
                          (Inr (intro @ fallback_answer hs),
                           ag1\<lparr>memory := add_interaction set_list (memory ag1) user_query
                                            (fallback_answer hs) hs\<rparr>)))))"

definition process_query :: "(real list \<Rightarrow> nat list) \<Rightarrow> (string list \<Rightarrow> string list)
    \<Rightarrow> (string \<Rightarrow> nat \<Rightarrow> py_error + string) \<Rightarrow> rag_engine \<Rightarrow> agent \<Rightarrow> string \<Rightarrow> bool
    \<Rightarrow> (py_error + string) \<times> agent" where
  "process_query argsort set_list chat eng ag user_query is_first_message =
     (case process_query_try argsort set_list chat eng ag user_query is_first_message of
        (Inl e, ag') \<Rightarrow> (Inr trouble_message, ag')
      | (Inr response, ag') \<Rightarrow> (Inr response, ag'))"

text \<open>
  The same engine after damage: the frame has lost its column labels and the vectorizer
  raises on every query.
\<close>

definition broken_engine :: rag_engine where
  "broken_engine =
     demo_engine\<lparr>hospitals_df := Some \<lparr>df_columns = [], df_rows = []\<rparr>,
                 vectorizer := Some (\<lambda>q. Inl ValueError)\<rparr>"

text \<open>A result entry for the third record of the demo catalog.\<close>

definition fortis :: hospital where
  "fortis = \<lparr>name = ''Fortis Hospital'', address = ''789 Lake Rd'', city = ''Delhi'',
             full_text = None, score = 1.0, relevance = ''high''\<rparr>"

section \<open>Properties of the ranked search\<close>

lemma py_take_nonneg: "0 \<le> k \<Longrightarrow> py_take k xs = take (nat k) xs"
  by (simp add: py_take_def)

lemma collect_eq:
  "collect eng sims thr idxs acc = Inr hs \<Longrightarrow>
   hs = acc @ map (mk_hospital eng sims)
          (filter (\<lambda>i. i < length (metadata eng) \<and> thr \<le> sims ! i) idxs)"
proof (induction idxs arbitrary: acc)
  case Nil
  then show ?case by simp
next
  case (Cons idx rest)
  show ?case
  proof (cases "idx < length (metadata eng) \<and> thr \<le> sims ! idx")
    case True
    with Cons.prems have "collect eng sims thr rest (acc @ [mk_hospital eng sims idx]) = Inr hs"
      by (simp split: if_splits)
    from Cons.IH[OF this] True show ?thesis by simp
  next
    case False
    with Cons.prems have "collect eng sims thr rest acc = Inr hs"
      by (auto split: if_splits)
    from Cons.IH[OF this] False show ?thesis by auto
  qed
qed

lemma score_mk_hospital: "score (mk_hospital eng sims i) = sims ! i"
  by (simp add: mk_hospital_def)

lemma rev_argsort_descending:
  assumes "argsort_spec argsort"
  shows "sorted_wrt (\<lambda>i j. sims ! j \<le> sims ! i) (rev (argsort sims))"
proof -
  from assms have "sorted (map (\<lambda>i. sims ! i) (argsort sims))"
    by (simp add: argsort_spec_def)
  then show ?thesis
    by (simp add: sorted_map sorted_wrt_rev)
qed

lemma insort_key_lex:
  fixes f :: "nat \<Rightarrow> real"
  assumes "sorted_wrt (\<lambda>i j. f i < f j \<or> (f i = f j \<and> i < j)) ys" and "\<forall>y\<in>set ys. x < y"
  shows "sorted_wrt (\<lambda>i j. f i < f j \<or> (f i = f j \<and> i < j)) (insort_key f x ys)"
  using assms by (induction ys) (auto simp: set_insort_key)

lemma sort_key_lex:
  fixes f :: "nat \<Rightarrow> real"
  assumes "sorted_wrt (<) xs"
  shows "sorted_wrt (\<lambda>i j. f i < f j \<or> (f i = f j \<and> i < j)) (sort_key f xs)"
  using assms
proof (induction xs)
  case Nil
  then show ?case by simp
next
  case (Cons x xs)
  then show ?case by (simp add: insort_key_lex)
qed

lemma stable_argsort_lex:
  "sorted_wrt (\<lambda>i j. sims ! i < sims ! j \<or> (sims ! i = sims ! j \<and> i < j)) (stable_argsort sims)"
  unfolding stable_argsort_def by (rule sort_key_lex) (simp add: sorted_wrt_upt)

lemma stable_argsort_spec: "argsort_spec stable_argsort"
  by (simp add: argsort_spec_def stable_argsort_def)

lemma search_hospitals_cases:
  "search_hospitals argsort eng q k thr = Inr [] \<or>
   (\<exists>sims. search_hospitals argsort eng q k thr =
      Inr (map (mk_hospital eng sims)
        (filter (\<lambda>i. i < length (metadata eng) \<and> thr \<le> sims ! i) (top_indices argsort sims k))))"
  unfolding search_hospitals_def search_hospitals_try_def
  by (auto split: option.splits sum.splits dest: collect_eq)

lemma demo_sims: "cosine_similarity [1, 0] [[1, 0], [1, 0], [0, 1]] = Inr [1, 1, 0]"
  by (simp add: cosine_similarity_def normalize_def dot_def)

lemma demo_argsort: "stable_argsort [1, 1, 0] = [2, 0, 1]"
  by (simp add: stable_argsort_def upt_rec)

lemma demo_bangalore: "demo_transform ''bangalore'' = Inr [1, 0]"
  by (simp add: demo_transform_def py_lower_def lower_char_def)

lemma demo_fields:
  "vectorizer demo_engine = Some demo_transform"
  "tfidf_matrix demo_engine = Some [[1, 0], [1, 0], [0, 1]]"
  "length (metadata demo_engine) = 3"
  "length (documents demo_engine) = 3"
  by (simp_all add: demo_engine_def)

lemma demo_search_2:
  "search_hospitals stable_argsort demo_engine ''bangalore'' 2 0.1 =
     Inr [mk_hospital demo_engine [1, 1, 0] 1, mk_hospital demo_engine [1, 1, 0] 0]"
  by (simp add: search_hospitals_def search_hospitals_try_def demo_bangalore demo_sims
      top_indices_def demo_argsort py_take_def demo_fields)

text \<open>
  Claim C1, as the code has it. For every query and every count \<open>k \<ge> 0\<close>,
  \<open>search_hospitals\<close> returns a value with at most \<open>k\<close> results, whose scores are in
  descending order and each at least the threshold. Results of equal score follow the
  reversed argsort: with a stable argsort they come in descending document index, which
  is the reverse of the catalog order.
\<close>

theorem search_hospitals_ranked:
  assumes "argsort_spec argsort" and "0 \<le> k"
  shows "\<exists>hs. search_hospitals argsort eng q k thr = Inr hs
           \<and> int (length hs) \<le> k
           \<and> sorted_wrt (\<lambda>a b. score b \<le> score a) hs
           \<and> (\<forall>h\<in>set hs. thr \<le> score h)
           \<and> (argsort = stable_argsort \<longrightarrow>
                (\<exists>sims idxs. hs = map (mk_hospital eng sims) idxs
                   \<and> sorted_wrt (\<lambda>i j. sims ! j < sims ! i \<or> (sims ! j = sims ! i \<and> j < i)) idxs))"
proof -
  consider (empty) "search_hospitals argsort eng q k thr = Inr []"
    | (found) sims where "search_hospitals argsort eng q k thr =
        Inr (map (mk_hospital eng sims)
          (filter (\<lambda>i. i < length (metadata eng) \<and> thr \<le> sims ! i) (top_indices argsort sims k)))"
    using search_hospitals_cases by blast
  then show ?thesis
  proof cases
    case empty
    have "[] = map (mk_hospital eng []) []" by simp
    with empty assms(2) show ?thesis by force
  next
    case (found sims)
    define top where "top = top_indices argsort sims k"
    define idxs where "idxs = filter (\<lambda>i. i < length (metadata eng) \<and> thr \<le> sims ! i) top"
    have top: "top = take (nat k) (rev (argsort sims))"
      using assms(2) by (simp add: top_def top_indices_def py_take_nonneg)
    have len: "int (length idxs) \<le> k"
    proof -
      have "length idxs \<le> length top" by (simp add: idxs_def)
      also have "\<dots> \<le> nat k" by (simp add: top)
      finally show ?thesis using assms(2) by simp
    qed
    have desc: "sorted_wrt (\<lambda>i j. sims ! j \<le> sims ! i) idxs"
      unfolding idxs_def top
      by (intro sorted_wrt_filter sorted_wrt_take rev_argsort_descending assms(1))
    have thr: "\<forall>i\<in>set idxs. thr \<le> sims ! i"
      by (simp add: idxs_def)
    have lex: "sorted_wrt (\<lambda>i j. sims ! j < sims ! i \<or> (sims ! j = sims ! i \<and> j < i)) idxs"
      if "argsort = stable_argsort"
      unfolding idxs_def top that
      by (intro sorted_wrt_filter sorted_wrt_take) (simp add: sorted_wrt_rev stable_argsort_lex)
    have res: "search_hospitals argsort eng q k thr = Inr (map (mk_hospital eng sims) idxs)"
      using found by (simp add: idxs_def top_def)
    have "sorted_wrt (\<lambda>a b. score b \<le> score a) (map (mk_hospital eng sims) idxs)"
      using desc by (simp add: sorted_wrt_map score_mk_hospital)
    moreover have "\<forall>h\<in>set (map (mk_hospital eng sims) idxs). thr \<le> score h"
      using thr by (simp add: score_mk_hospital)
    ultimately show ?thesis
      using res len lex by auto
  qed
qed

text \<open>The theorem at the query \<open>bangalore\<close> with \<open>k = 2\<close> on the demo catalog.\<close>

theorem search_hospitals_ranked_witness:
  "argsort_spec stable_argsort \<and> (0::int) \<le> 2
   \<and> (\<exists>hs. search_hospitals stable_argsort demo_engine ''bangalore'' 2 0.1 = Inr hs
        \<and> hs = [mk_hospital demo_engine [1, 1, 0] 1, mk_hospital demo_engine [1, 1, 0] 0]
        \<and> int (length hs) \<le> 2
        \<and> sorted_wrt (\<lambda>a b. score b \<le> score a) hs
        \<and> (\<forall>h\<in>set hs. 0.1 \<le> score h))"
  using search_hospitals_ranked [OF stable_argsort_spec, of 2 demo_engine "''bangalore''" "0.1"]
  by (simp add: stable_argsort_spec demo_search_2)

text \<open>
  Claim C1 as stated fails on ties: the two Bangalore hospitals score the same, and the
  second record of the catalog (index 1) is returned before the first (index 0).
\<close>

theorem search_hospitals_tie_order_counterexample:
  "search_hospitals stable_argsort demo_engine ''bangalore'' 2 0.1 =
     Inr [mk_hospital demo_engine [1, 1, 0] 1, mk_hospital demo_engine [1, 1, 0] 0]
   \<and> score (mk_hospital demo_engine [1, 1, 0] 1) = score (mk_hospital demo_engine [1, 1, 0] 0)
   \<and> name (mk_hospital demo_engine [1, 1, 0] 1) = meta_name (metadata demo_engine ! 1)
   \<and> name (mk_hospital demo_engine [1, 1, 0] 0) = meta_name (metadata demo_engine ! 0)"
  by (simp add: demo_search_2 mk_hospital_def)

subsection \<open>A query outside the vocabulary\<close>

lemma dot_zero: "\<forall>x\<in>set u. x = 0 \<Longrightarrow> dot u v = 0"
  unfolding dot_def
proof (induction u arbitrary: v)
  case Nil
  then show ?case by simp
next
  case (Cons a u)
  then show ?case by (cases v) simp_all
qed

lemma normalize_zero: "\<forall>x\<in>set u. x = 0 \<Longrightarrow> \<forall>x\<in>set (normalize u). x = 0"
  by (auto simp: normalize_def Let_def)

lemma collect_below:
  assumes "\<forall>x\<in>set sims. x < thr"
  shows "collect eng sims thr idxs acc = Inr hs \<Longrightarrow> hs = acc"
proof (induction idxs arbitrary: acc)
  case Nil
  then show ?case by simp
next
  case (Cons idx rest)
  show ?case
  proof (cases "idx < length (metadata eng)")
    case True
    with Cons.prems have inb: "idx < length sims"
      by (auto split: if_splits)
    with assms have "sims ! idx < thr" by simp
    with Cons.prems True inb have "collect eng sims thr rest acc = Inr hs"
      by (simp split: if_splits)
    then show ?thesis by (rule Cons.IH)
  next
    case False
    with Cons.prems have "collect eng sims thr rest acc = Inr hs" by simp
    then show ?thesis by (rule Cons.IH)
  qed
qed

lemma zero_vector_below_threshold:
  assumes "vectorizer eng = Some transform"
    and "transform q = Inr qv"
    and "\<forall>x\<in>set qv. x = 0"
    and "0 < thr"
  shows "search_hospitals argsort eng q k thr = Inr []"
proof (cases "tfidf_matrix eng")
  case None
  then show ?thesis by (simp add: search_hospitals_def)
next
  case (Some M)
  show ?thesis
  proof (cases "cosine_similarity qv M")
    case (Inl e)
    with Some assms(1,2) show ?thesis
      by (simp add: search_hospitals_def search_hospitals_try_def)
  next
    case (Inr sims)
    then have "sims = map (\<lambda>row. dot (normalize qv) (normalize row)) M"
      by (simp add: cosine_similarity_def split: if_splits)
    moreover have "dot (normalize qv) r = 0" for r
      using assms(3) by (intro dot_zero normalize_zero)
    ultimately have "\<forall>x\<in>set sims. x < thr"
      using assms(4) by simp
    then have "collect eng sims thr idxs [] = Inr hs \<Longrightarrow> hs = []" for idxs hs
      by (rule collect_below)
    with Some Inr assms(1,2) show ?thesis
      by (auto simp: search_hospitals_def search_hospitals_try_def split: sum.splits)
  qed
qed

text \<open>
  Claim C8. When the vectorizer maps the query to the zero vector, every similarity is
  zero, no document reaches the threshold \<open>0.1\<close> of the call, and \<open>search_hospitals\<close> returns
  the empty list as a value, whatever \<open>k\<close> and the argsort.
\<close>

theorem search_hospitals_zero_vector:
  assumes "vectorizer eng = Some transform"
    and "transform q = Inr qv"
    and "list_all (\<lambda>x. x = 0) qv"
  shows "search_hospitals argsort eng q k default_score_threshold = Inr []"
proof -
  from assms(3) have "\<forall>x\<in>set qv. x = 0"
    by (simp add: list_all_iff)
  with assms(1,2) show ?thesis
    by (rule zero_vector_below_threshold) (simp add: default_score_threshold_def)
qed

lemma demo_weather: "demo_transform ''what is the weather'' = Inr [0, 0]"
  by (simp add: demo_transform_def py_lower_def lower_char_def)

text \<open>The theorem on the demo catalog, at a query with no term of the vocabulary.\<close>

theorem search_hospitals_zero_vector_witness:
  "vectorizer demo_engine = Some demo_transform
   \<and> demo_transform ''what is the weather'' = Inr [0, 0]
   \<and> list_all (\<lambda>x. x = 0) [0, 0 :: real]
   \<and> search_hospitals stable_argsort demo_engine ''what is the weather'' 5 default_score_threshold = Inr []"
  using search_hospitals_zero_vector [of demo_engine demo_transform "''what is the weather''"
      "[0, 0]" stable_argsort 5]
  by (simp add: demo_fields demo_weather)

section \<open>Properties of the hybrid search\<close>

lemma select_rows_map: "select_rows (map p rows) rows = filter p rows"
  unfolding select_rows_def by (induction rows) simp_all

lemma map2_conj_map: "map2 (\<and>) (map f rows) (map g rows) = map (\<lambda>r. f r \<and> g r) rows"
  by (induction rows) simp_all

lemma select_rows_build_mask:
  assumes "build_mask df nm cty = Inr msk"
  shows "select_rows msk (df_rows df) =
    filter (\<lambda>r. py_in (py_lower nm) (py_lower (row_name r))
              \<and> (truthy cty \<longrightarrow> py_in (py_lower (the cty)) (py_lower (row_city r))))
      (df_rows df)"
proof -
  have "msk = map (\<lambda>r. py_in (py_lower nm) (py_lower (row_name r))
              \<and> (truthy cty \<longrightarrow> py_in (py_lower (the cty)) (py_lower (row_city r)))) (df_rows df)"
    using assms
    by (auto simp: build_mask_def column_def str_contains_def map2_conj_map
        split: if_splits)
  then show ?thesis by (simp add: select_rows_map)
qed

lemma subseq_take': "subseq (take n xs) xs"
  by (metis append_take_drop_id list_emb_prefix subseq_order.order_refl)

lemma first_pass_rows:
  assumes "first_pass df nm cty k = Inr hs" and "0 \<le> k"
  shows "\<exists>rows. hs = map exact_entry rows \<and> subseq rows (df_rows df) \<and> int (length rows) \<le> k
           \<and> (\<forall>r\<in>set rows. py_in (py_lower nm) (py_lower (row_name r))
                 \<and> (truthy cty \<longrightarrow> py_in (py_lower (the cty)) (py_lower (row_city r))))"
proof -
  from assms(1) obtain msk where msk: "build_mask df nm cty = Inr msk"
    and hs: "hs = map exact_entry (py_take k (select_rows msk (df_rows df)))"
    by (auto simp: first_pass_def Let_def split: sum.splits if_splits)
  define P where "P = (\<lambda>r::hospital_row. py_in (py_lower nm) (py_lower (row_name r))
              \<and> (truthy cty \<longrightarrow> py_in (py_lower (the cty)) (py_lower (row_city r))))"
  define rows where "rows = take (nat k) (filter P (df_rows df))"
  have "hs = map exact_entry rows"
    using hs assms(2) by (simp add: select_rows_build_mask[OF msk] py_take_nonneg rows_def P_def)
  moreover have "subseq rows (df_rows df)"
    unfolding rows_def by (rule subseq_order.order_trans[OF subseq_take' subseq_filter_left])
  moreover have "int (length rows) \<le> k"
    using assms(2) by (simp add: rows_def)
  moreover have "\<forall>r\<in>set rows. P r"
    unfolding rows_def by (auto dest: in_set_takeD)
  ultimately show ?thesis unfolding P_def by blast
qed

lemma first_pass_eq:
  assumes "first_pass df nm cty k = Inr hs" and "0 \<le> k"
  shows "hs = map exact_entry (take (nat k)
           (filter (\<lambda>r. py_in (py_lower nm) (py_lower (row_name r))
                       \<and> (truthy cty \<longrightarrow> py_in (py_lower (the cty)) (py_lower (row_city r))))
              (df_rows df)))"
proof -
  from assms(1) obtain msk where msk: "build_mask df nm cty = Inr msk"
    and hs: "hs = map exact_entry (py_take k (select_rows msk (df_rows df)))"
    by (auto simp: first_pass_def Let_def split: sum.splits if_splits)
  show ?thesis
    using hs assms(2) by (simp add: select_rows_build_mask[OF msk] py_take_nonneg)
qed

lemma first_pass_well_formed:
  assumes "set [''hospital name'', ''address'', ''city''] \<subseteq> set (df_columns df)"
  shows "\<exists>hs. first_pass df nm cty k = Inr hs"
  using assms by (simp add: first_pass_def build_mask_def column_def Let_def)

lemma truthy_iff: "truthy cty \<longleftrightarrow> cty \<noteq> None \<and> cty \<noteq> Some []"
  by (simp add: truthy_def split: option.splits)

lemma append_new_shape:
  "\<exists>rest. append_new k ex hs sem = hs @ rest \<and> subseq rest sem
          \<and> (\<forall>r\<in>set rest. py_lower (name r) \<notin> set ex)"
proof (induction sem arbitrary: hs)
  case Nil
  then show ?case by simp
next
  case (Cons r sem)
  show ?case
  proof (cases "py_lower (name r) \<notin> set ex")
    case True
    from Cons.IH[of "hs @ [r]"] obtain rest where
      "append_new k ex (hs @ [r]) sem = (hs @ [r]) @ rest" "subseq rest sem"
      "\<forall>x\<in>set rest. py_lower (name x) \<notin> set ex"
      by blast
    with True show ?thesis
      by (cases "k \<le> int (length (hs @ [r]))") auto
  next
    case False
    from Cons.IH[of hs] obtain rest where
      "append_new k ex hs sem = hs @ rest" "subseq rest sem"
      "\<forall>x\<in>set rest. py_lower (name x) \<notin> set ex"
      by blast
    with False show ?thesis by auto
  qed
qed

lemma append_new_length:
  "int (length hs) < k \<Longrightarrow> int (length (append_new k ex hs sem)) \<le> k"
proof (induction sem arbitrary: hs)
  case Nil
  then show ?case by simp
next
  case (Cons r sem)
  then show ?case by (auto simp: not_le)
qed

lemma search_hospitals_length:
  assumes "0 \<le> k"
  shows "\<exists>hs. search_hospitals argsort eng q k thr = Inr hs \<and> int (length hs) \<le> k"
proof -
  have "int (length (filter P (top_indices argsort sims k))) \<le> k" for P sims
  proof -
    have "length (filter P (top_indices argsort sims k)) \<le> length (top_indices argsort sims k)"
      by simp
    also have "\<dots> \<le> nat k"
      using assms by (simp add: top_indices_def py_take_nonneg)
    finally show ?thesis using assms by simp
  qed
  with search_hospitals_cases[of argsort eng q k thr] assms show ?thesis
    by auto
qed

text \<open>
  Claim C6. For every name, optional city and count \<open>k \<ge> 0\<close>, \<open>search_by_name_and_city\<close>
  returns at most \<open>k\<close> entries, the entries of the exact pass first. On a frame with its
  three columns the exact pass is exactly this: the first \<open>k\<close> rows, in the order of the
  frame, whose name contains the given name as a substring, both lower-cased, and whose
  city contains the given city likewise when a city is given; each as an entry with the
  row's name, address and city, score \<open>1.0\<close> and relevance \<open>high\<close>. On any frame its entries
  have that score and relevance and come from rows of the frame in order. Every entry
  after them is a result of the fallback search, in its order, with a lower-cased name
  different from all lower-cased names of the exact pass.
\<close>

theorem search_by_name_and_city_shape:
  assumes "0 \<le> k"
  shows "\<exists>rest. search_by_name_and_city argsort eng nm cty k = Inr (exact_pass eng nm cty k @ rest)
           \<and> int (length (exact_pass eng nm cty k @ rest)) \<le> k
           \<and> (\<forall>h\<in>set (exact_pass eng nm cty k). score h = 1 \<and> relevance h = ''high'')
           \<and> (\<exists>rows. exact_pass eng nm cty k = map exact_entry rows
                 \<and> (\<forall>df. hospitals_df eng = Some df \<longrightarrow> subseq rows (df_rows df))
                 \<and> (\<forall>r\<in>set rows. py_in (py_lower nm) (py_lower (row_name r))))
           \<and> (\<forall>df. hospitals_df eng = Some df
                  \<and> set [''hospital name'', ''address'', ''city''] \<subseteq> set (df_columns df) \<longrightarrow>
                 exact_pass eng nm cty k =
                   map (\<lambda>r. \<lparr>name = row_name r, address = row_address r, city = row_city r,
                               full_text = None, score = 1, relevance = ''high''\<rparr>)
                     (take (nat k)
                        (filter (\<lambda>r. py_in (py_lower nm) (py_lower (row_name r))
                                   \<and> (cty \<noteq> None \<and> cty \<noteq> Some [] \<longrightarrow>
                                        py_in (py_lower (the cty)) (py_lower (row_city r))))
                           (df_rows df))))
           \<and> (\<exists>sem. search_hospitals argsort eng
                        (if cty \<noteq> None \<and> cty \<noteq> Some [] then nm @ '' hospital in '' @ the cty
                         else nm @ '' hospital'') k default_score_threshold = Inr sem
                 \<and> subseq rest sem)
           \<and> (\<forall>r\<in>set rest. py_lower (name r) \<notin> (\<lambda>h. py_lower (name h)) ` set (exact_pass eng nm cty k))"
proof -
  define fq where "fq = (if cty \<noteq> None \<and> cty \<noteq> Some [] then nm @ '' hospital in '' @ the cty
                         else nm @ '' hospital'')"
  have fq: "fallback_query nm cty = fq"
    by (simp add: fq_def fallback_query_def truthy_iff)
  obtain sem where sem: "search_hospitals argsort eng fq k default_score_threshold = Inr sem"
    and sem_len: "int (length sem) \<le> k"
    using search_hospitals_length[OF assms] by blast
  have exact: "exact_pass eng nm cty k =
      map (\<lambda>r. \<lparr>name = row_name r, address = row_address r, city = row_city r,
                  full_text = None, score = 1, relevance = ''high''\<rparr>)
        (take (nat k)
           (filter (\<lambda>r. py_in (py_lower nm) (py_lower (row_name r))
                      \<and> (cty \<noteq> None \<and> cty \<noteq> Some [] \<longrightarrow>
                           py_in (py_lower (the cty)) (py_lower (row_city r))))
              (df_rows df)))"
    if "hospitals_df eng = Some df"
      and "set [''hospital name'', ''address'', ''city''] \<subseteq> set (df_columns df)" for df
  proof -
    from first_pass_well_formed[OF that(2)] obtain hs where hs: "first_pass df nm cty k = Inr hs"
      by blast
    have "exact_entry = (\<lambda>r. \<lparr>name = row_name r, address = row_address r, city = row_city r,
                  full_text = None, score = 1, relevance = ''high''\<rparr>)"
      by (rule ext) (simp add: exact_entry_def)
    with first_pass_eq[OF hs assms] that(1) hs show ?thesis
      by (simp add: exact_pass_def truthy_iff)
  qed
  have main: "\<exists>rest. search_by_name_and_city argsort eng nm cty k = Inr (exact_pass eng nm cty k @ rest)
           \<and> int (length (exact_pass eng nm cty k @ rest)) \<le> k
           \<and> (\<forall>h\<in>set (exact_pass eng nm cty k). score h = 1 \<and> relevance h = ''high'')
           \<and> (\<exists>rows. exact_pass eng nm cty k = map exact_entry rows
                 \<and> (\<forall>df. hospitals_df eng = Some df \<longrightarrow> subseq rows (df_rows df))
                 \<and> (\<forall>r\<in>set rows. py_in (py_lower nm) (py_lower (row_name r))))
           \<and> subseq rest sem
           \<and> (\<forall>r\<in>set rest. py_lower (name r) \<notin> (\<lambda>h. py_lower (name h)) ` set (exact_pass eng nm cty k))"
  proof (cases "hospitals_df eng")
    case None
    with assms show ?thesis
      by (simp add: search_by_name_and_city_def exact_pass_def)
  next
    case (Some df)
    show ?thesis
    proof (cases "first_pass df nm cty k")
      case (Inl e)
      with Some sem sem_len show ?thesis
        by (simp add: search_by_name_and_city_def search_by_name_try_def exact_pass_def fq)
    next
      case (Inr first)
      from first_pass_rows[OF Inr assms] obtain rows where rows: "first = map exact_entry rows"
        "subseq rows (df_rows df)" "int (length rows) \<le> k"
        "\<forall>r\<in>set rows. py_in (py_lower nm) (py_lower (row_name r))"
        by blast
      have ep: "exact_pass eng nm cty k = first"
        using Some Inr by (simp add: exact_pass_def)
      have first_len: "int (length first) \<le> k"
        using rows by simp
      have props: "\<forall>h\<in>set first. score h = 1 \<and> relevance h = ''high''"
        using rows(1) by (auto simp: exact_entry_def)
      have "\<exists>rest. search_by_name_and_city argsort eng nm cty k = Inr (first @ rest)
             \<and> int (length (first @ rest)) \<le> k
             \<and> subseq rest sem
             \<and> (\<forall>r\<in>set rest. py_lower (name r) \<notin> (\<lambda>h. py_lower (name h)) ` set first)"
      proof (cases "int (length first) < k")
        case True
        define ex where "ex = map (\<lambda>h. py_lower (name h)) first"
        obtain rest where rest: "append_new k ex first sem = first @ rest" "subseq rest sem"
          "\<forall>r\<in>set rest. py_lower (name r) \<notin> set ex"
          using append_new_shape by blast
        have len: "int (length (append_new k ex first sem)) \<le> k"
          using True by (rule append_new_length)
        then have "py_take k (append_new k ex first sem) = first @ rest"
          using assms rest(1) by (simp add: py_take_nonneg)
        with True Some Inr sem len rest show ?thesis
          by (auto simp: search_by_name_and_city_def search_by_name_try_def fq ex_def)
      next
        case False
        with first_len have "py_take k first = first"
          using assms by (simp add: py_take_nonneg)
        with False Some Inr first_len show ?thesis
          by (simp add: search_by_name_and_city_def search_by_name_try_def)
      qed
      with ep props rows Some show ?thesis by auto
    qed
  qed
  from main obtain rest where rest:
    "search_by_name_and_city argsort eng nm cty k = Inr (exact_pass eng nm cty k @ rest)"
    "int (length (exact_pass eng nm cty k @ rest)) \<le> k"
    "\<forall>h\<in>set (exact_pass eng nm cty k). score h = 1 \<and> relevance h = ''high''"
    "\<exists>rows. exact_pass eng nm cty k = map exact_entry rows
         \<and> (\<forall>df. hospitals_df eng = Some df \<longrightarrow> subseq rows (df_rows df))
         \<and> (\<forall>r\<in>set rows. py_in (py_lower nm) (py_lower (row_name r)))"
    "subseq rest sem"
    "\<forall>r\<in>set rest. py_lower (name r) \<notin> (\<lambda>h. py_lower (name h)) ` set (exact_pass eng nm cty k)"
    by blast
  have "\<exists>sem. search_hospitals argsort eng fq k default_score_threshold = Inr sem \<and> subseq rest sem"
    using sem rest(5) by blast
  with rest(1,2,3,4,6) exact show ?thesis
    unfolding fq_def by blast
qed

lemma demo_first_pass:
  "first_pass (the (hospitals_df demo_engine)) ''Apollo'' (Some ''Bangalore'') 3 =
     Inr [exact_entry \<lparr>row_name = ''Apollo Hospital'', row_address = ''123 Main St'', row_city = ''Bangalore''\<rparr>]"
  by (simp add: first_pass_def build_mask_def column_def demo_engine_def truthy_def
      str_contains_def py_lower_def lower_char_def select_rows_def py_take_def)

lemma demo_fallback_query:
  "demo_transform (fallback_query ''Apollo'' (Some ''Bangalore'')) = Inr [1, 0]"
  by (simp add: fallback_query_def truthy_def demo_transform_def py_lower_def lower_char_def)

lemma demo_search_3:
  "search_hospitals stable_argsort demo_engine (fallback_query ''Apollo'' (Some ''Bangalore'')) 3
     default_score_threshold =
     Inr [mk_hospital demo_engine [1, 1, 0] 1, mk_hospital demo_engine [1, 1, 0] 0]"
  by (simp add: search_hospitals_def search_hospitals_try_def demo_fallback_query demo_sims
      top_indices_def demo_argsort py_take_def demo_fields default_score_threshold_def)

lemma demo_by_name:
  "search_by_name_and_city stable_argsort demo_engine ''Apollo'' (Some ''Bangalore'') 3 =
     Inr [exact_entry \<lparr>row_name = ''Apollo Hospital'', row_address = ''123 Main St'', row_city = ''Bangalore''\<rparr>,
          mk_hospital demo_engine [1, 1, 0] 1]"
proof -
  have df: "hospitals_df demo_engine = Some (the (hospitals_df demo_engine))"
    by (simp add: demo_engine_def)
  have names: "name (mk_hospital demo_engine [1, 1, 0] (Suc 0)) = ''Manipal Hospital''"
    "name (mk_hospital demo_engine [1, 1, 0] 0) = ''Apollo Hospital''"
    by (simp_all add: mk_hospital_def demo_engine_def)
  show ?thesis
    unfolding search_by_name_and_city_def search_by_name_try_def
    by (subst df) (simp add: demo_first_pass demo_search_3 names exact_entry_def py_lower_def
        lower_char_def py_take_def)
qed

lemma demo_exact_pass:
  "exact_pass demo_engine ''Apollo'' (Some ''Bangalore'') 3 =
     [exact_entry \<lparr>row_name = ''Apollo Hospital'', row_address = ''123 Main St'', row_city = ''Bangalore''\<rparr>]"
proof -
  have df: "hospitals_df demo_engine = Some (the (hospitals_df demo_engine))"
    by (simp add: demo_engine_def)
  show ?thesis
    unfolding exact_pass_def by (subst df) (simp add: demo_first_pass)
qed

text \<open>The theorem on the demo catalog: \<open>Apollo\<close> in \<open>Bangalore\<close>, three results asked.\<close>

theorem search_by_name_and_city_shape_witness:
  "(0::int) \<le> 3
   \<and> search_by_name_and_city stable_argsort demo_engine ''Apollo'' (Some ''Bangalore'') 3 =
       Inr (exact_pass demo_engine ''Apollo'' (Some ''Bangalore'') 3 @ [mk_hospital demo_engine [1, 1, 0] 1])
   \<and> exact_pass demo_engine ''Apollo'' (Some ''Bangalore'') 3 =
       [exact_entry \<lparr>row_name = ''Apollo Hospital'', row_address = ''123 Main St'', row_city = ''Bangalore''\<rparr>]
   \<and> (\<exists>rest. search_by_name_and_city stable_argsort demo_engine ''Apollo'' (Some ''Bangalore'') 3 =
         Inr (exact_pass demo_engine ''Apollo'' (Some ''Bangalore'') 3 @ rest)
       \<and> int (length (exact_pass demo_engine ''Apollo'' (Some ''Bangalore'') 3 @ rest)) \<le> 3
       \<and> (\<forall>r\<in>set rest. py_lower (name r) \<notin>
             (\<lambda>h. py_lower (name h)) ` set (exact_pass demo_engine ''Apollo'' (Some ''Bangalore'') 3)))"
  using search_by_name_and_city_shape [of 3 stable_argsort demo_engine "''Apollo''" "Some ''Bangalore''"]
  by (simp add: demo_by_name demo_exact_pass)

section \<open>Properties of the conversation memory\<close>

lemma max_history_add [simp]:
  "max_history (add_interaction set_list m q a hs) = max_history m"
  by (simp add: add_interaction_def Let_def)

lemma history_add:
  assumes "0 < max_history m"
  shows "history (add_interaction set_list m q a hs) =
    drop (length (history m) + 1 - nat (max_history m))
      (history m @ [\<lparr>user = q, assistant = a, hospitals = hs\<rparr>])"
  using assms by (auto simp: add_interaction_def Let_def py_drop_def)

lemma drop_last_twice:
  "drop (length (drop (length xs - n) xs @ ys) - n) (drop (length xs - n) xs @ ys) =
   drop (length (xs @ ys) - n) (xs @ ys)"
  by (cases "length xs \<le> n") (auto simp: add.commute)

lemma history_run_adds:
  assumes "0 < max_history m" and "int (length (history m)) \<le> max_history m"
  shows "history (run_calls set_list m (map add_of turns)) =
           drop (length (history m @ map turn_of turns) - nat (max_history m))
             (history m @ map turn_of turns)
         \<and> max_history (run_calls set_list m (map add_of turns)) = max_history m"
  using assms
proof (induction turns arbitrary: m)
  case Nil
  then show ?case by (simp add: run_calls_def)
next
  case (Cons t turns)
  obtain q a hs where t: "t = (q, a, hs)" by (cases t)
  let ?m1 = "add_interaction set_list m q a hs"
  let ?n = "nat (max_history m)"
  let ?h1 = "history m @ [turn_of t]"
  have h1: "history ?m1 = drop (length ?h1 - ?n) ?h1"
    using history_add[OF Cons.prems(1)] by (simp add: t turn_of_def)
  have inv: "0 < max_history ?m1" "int (length (history ?m1)) \<le> max_history ?m1"
    using Cons.prems by (auto simp: h1)
  have run: "run_calls set_list m (map add_of (t # turns)) = run_calls set_list ?m1 (map add_of turns)"
    by (simp add: run_calls_def t add_of_def)
  from Cons.IH[OF inv] have
    "history (run_calls set_list ?m1 (map add_of turns)) =
       drop (length (history ?m1 @ map turn_of turns) - ?n) (history ?m1 @ map turn_of turns)"
    and mh: "max_history (run_calls set_list ?m1 (map add_of turns)) = max_history m"
    by simp_all
  then have "history (run_calls set_list ?m1 (map add_of turns)) =
       drop (length (?h1 @ map turn_of turns) - ?n) (?h1 @ map turn_of turns)"
    unfolding h1 by (simp only: drop_last_twice)
  with mh run show ?case by simp
qed

text \<open>
  Claim C9. The cap is a positive number (10 unless given). After any sequence of
  \<open>add_interaction\<close> calls on a memory whose history is within the cap, the history is
  within the cap and consists of the last \<open>max_history\<close> turns of the old history followed
  by the new turns, in their order: the oldest turns are the ones evicted.
\<close>

theorem history_capped_fifo:
  assumes "0 < max_history m" and "int (length (history m)) \<le> max_history m"
  shows "int (length (history (run_calls set_list m (map add_of turns)))) \<le> max_history m
         \<and> history (run_calls set_list m (map add_of turns)) =
             drop (length (history m @ map turn_of turns) - nat (max_history m))
               (history m @ map turn_of turns)"
proof -
  have eq: "history (run_calls set_list m (map add_of turns)) =
             drop (length (history m @ map turn_of turns) - nat (max_history m))
               (history m @ map turn_of turns)"
    using history_run_adds[OF assms] by blast
  have "int (length (history (run_calls set_list m (map add_of turns)))) \<le> max_history m"
    unfolding eq using assms(1) by auto
  with eq show ?thesis by blast
qed

text \<open>Eleven turns added to a fresh memory of cap 10: turns 2 to 11 remain, in order.\<close>

theorem history_capped_fifo_witness:
  "(0::int) < max_history (init_memory 10)
   \<and> int (length (history (init_memory 10))) \<le> max_history (init_memory 10)
   \<and> map user (history (run_calls remdups (init_memory 10)
        (map add_of (map (\<lambda>q. (q, ''ok'', [])) [''q1'', ''q2'', ''q3'', ''q4'', ''q5'', ''q6'',
            ''q7'', ''q8'', ''q9'', ''q10'', ''q11''])))) =
       [''q2'', ''q3'', ''q4'', ''q5'', ''q6'', ''q7'', ''q8'', ''q9'', ''q10'', ''q11'']"
  using history_capped_fifo [where m = "init_memory 10" and set_list = remdups
      and turns = "map (\<lambda>q. (q, ''ok'', [])) [''q1'', ''q2'', ''q3'', ''q4'', ''q5'', ''q6'',
            ''q7'', ''q8'', ''q9'', ''q10'', ''q11'']"]
  by (simp add: init_memory_def turn_of_def)

text \<open>
  A cap of 0, which the agent never sets, is outside that theorem: the slice
  \<open>history[-0:]\<close> is the whole list, so the turn stays.
\<close>

lemma history_at_cap_zero:
  "length (history (add_interaction remdups (init_memory 0) ''find a hospital'' ''ok'' [])) = 1"
  by (simp add: add_interaction_def init_memory_def py_drop_def Let_def)

subsection \<open>The derived context\<close>

lemma update_context_cities:
  "last_cities (update_context set_list c q hs) =
     (if hs \<noteq> [] then Some (set_list (map city hs)) else last_cities c)"
  by (simp add: update_context_def Let_def)

lemma update_context_names:
  "last_hospital_names (update_context set_list c q hs) =
     (if hs \<noteq> [] then Some (map name hs) else last_hospital_names c)"
  by (simp add: update_context_def Let_def)

lemma ctx_add:
  "ctx (add_interaction set_list m q a hs) = update_context set_list (ctx m) q hs"
  by (simp add: add_interaction_def Let_def)

text \<open>
  Claim C3, as the code has it. After \<open>add_interaction\<close> with a non-empty result set, the
  list \<open>last_cities\<close> holds exactly the distinct cities of that result set and
  \<open>last_hospital_names\<close> holds its names, whatever these keys held before. With an empty
  result set both keys keep what they held before the call.
\<close>

theorem context_recomputed_when_nonempty:
  assumes "set_list_spec set_list"
  shows "(hs \<noteq> [] \<longrightarrow>
            (\<exists>cs. last_cities (ctx (add_interaction set_list m q a hs)) = Some cs
                 \<and> set cs = set (map city hs) \<and> distinct cs)
            \<and> last_hospital_names (ctx (add_interaction set_list m q a hs)) = Some (map name hs))
         \<and> (hs = [] \<longrightarrow>
              last_cities (ctx (add_interaction set_list m q a hs)) = last_cities (ctx m)
              \<and> last_hospital_names (ctx (add_interaction set_list m q a hs)) =
                  last_hospital_names (ctx m))"
  using assms
  by (simp add: ctx_add update_context_cities update_context_names set_list_spec_def)

lemma remdups_spec: "set_list_spec remdups"
  by (simp add: set_list_spec_def)

text \<open>
  The theorem on a fresh memory and a result set with the same hospital twice.
\<close>

theorem context_recomputed_when_nonempty_witness:
  "set_list_spec remdups
   \<and> last_cities (ctx (add_interaction remdups (init_memory 10) ''find delhi'' ''ok'' [fortis, fortis]))
       = Some [''Delhi'']
   \<and> last_hospital_names (ctx (add_interaction remdups (init_memory 10) ''find delhi'' ''ok'' [fortis, fortis]))
       = Some [''Fortis Hospital'', ''Fortis Hospital'']"
  using context_recomputed_when_nonempty [OF remdups_spec, of "[fortis, fortis]" "init_memory 10"
      "''find delhi''" "''ok''"]
  by (simp add: remdups_spec ctx_add update_context_cities fortis_def)

text \<open>
  Claim C3 as stated fails on an empty result set: after a turn that found a hospital in
  Delhi, a turn with no result leaves \<open>last_cities\<close> and \<open>last_hospital_names\<close> as they were,
  although the empty result set has no city and no name.
\<close>

theorem context_kept_on_empty_counterexample:
  "last_cities (ctx (add_interaction remdups
      (add_interaction remdups (init_memory 10) ''find delhi'' ''ok'' [fortis])
      ''find pune'' ''none'' [])) = Some [''Delhi'']
   \<and> last_hospital_names (ctx (add_interaction remdups
      (add_interaction remdups (init_memory 10) ''find delhi'' ''ok'' [fortis])
      ''find pune'' ''none'' [])) = Some [''Fortis Hospital'']
   \<and> map city ([] :: hospital list) = []"
  by (simp add: ctx_add update_context_cities update_context_names fortis_def)

lemma city_recorded_snoc_clear: "city_recorded (calls @ [Clear]) = False"
  by (induction calls rule: city_recorded.induct) simp_all

lemma city_recorded_snoc_add:
  "city_recorded (calls @ [Add q a hs]) = (hs \<noteq> [] \<or> city_recorded calls)"
  by (induction calls rule: city_recorded.induct) auto

lemma last_cities_run:
  assumes "set_list_spec set_list"
  shows "(last_cities (ctx (run_calls set_list (init_memory n) calls)) = None \<longleftrightarrow> \<not> city_recorded calls)
         \<and> last_cities (ctx (run_calls set_list (init_memory n) calls)) \<noteq> Some []"
proof (induction calls rule: rev_induct)
  case Nil
  then show ?case by (simp add: run_calls_def init_memory_def empty_context_def)
next
  case (snoc c calls)
  let ?m = "run_calls set_list (init_memory n) calls"
  have run: "run_calls set_list (init_memory n) (calls @ [c]) = apply_call set_list ?m c"
    by (simp add: run_calls_def)
  show ?case
  proof (cases c)
    case (Add q a hs)
    have ne: "set_list (map city hs) \<noteq> []" if "hs \<noteq> []"
    proof -
      from assms have "set (set_list (map city hs)) = set (map city hs)"
        by (simp add: set_list_spec_def)
      with that show ?thesis by (cases hs) auto
    qed
    from snoc ne show ?thesis
      unfolding run unfolding Add
      by (auto simp: ctx_add update_context_cities city_recorded_snoc_add)
  next
    case Clear
    show ?thesis
      unfolding run unfolding Clear
      by (simp add: clear_def empty_context_def city_recorded_snoc_clear)
  qed
qed

text \<open>
  Claim C10. On every memory reached from a fresh one by calls of \<open>add_interaction\<close> and
  \<open>clear\<close>, \<open>get_last_city\<close> returns a value: the key \<open>last_cities\<close> never holds an empty
  list. The value is \<open>None\<close> exactly when no turn with a non-empty result set has been
  recorded since the last \<open>clear\<close>.
\<close>

theorem get_last_city_total:
  assumes "set_list_spec set_list"
  shows "\<exists>r. get_last_city (run_calls set_list (init_memory n) calls) = Inr r
              \<and> (r = None \<longleftrightarrow> \<not> city_recorded calls)"
proof -
  let ?lc = "last_cities (ctx (run_calls set_list (init_memory n) calls))"
  from last_cities_run[OF assms, of n calls]
  have a: "?lc = None \<longleftrightarrow> \<not> city_recorded calls" and b: "?lc \<noteq> Some []"
    by blast+
  show ?thesis
  proof (cases ?lc)
    case None
    with a show ?thesis by (simp add: get_last_city_def)
  next
    case (Some cs)
    with b obtain c cs' where "cs = c # cs'" by (cases cs) auto
    with Some a show ?thesis by (simp add: get_last_city_def)
  qed
qed

text \<open>
  The theorem on two sequences of calls: one that records Delhi, one that clears after it.
\<close>

theorem get_last_city_total_witness:
  "set_list_spec remdups
   \<and> get_last_city (run_calls remdups (init_memory 10)
        [Add ''find delhi'' ''ok'' [fortis], Add ''find pune'' ''none'' []]) = Inr (Some ''Delhi'')
   \<and> city_recorded [Add ''find delhi'' ''ok'' [fortis], Add ''find pune'' ''none'' []]
   \<and> get_last_city (run_calls remdups (init_memory 10)
        [Add ''find delhi'' ''ok'' [fortis], Clear]) = Inr None
   \<and> \<not> city_recorded [Add ''find delhi'' ''ok'' [fortis], Clear]"
  using get_last_city_total [OF remdups_spec, of 10 "[Add ''find delhi'' ''ok'' [fortis], Add ''find pune'' ''none'' []]"]
    get_last_city_total [OF remdups_spec, of 10 "[Add ''find delhi'' ''ok'' [fortis], Clear]"]
  by (simp add: remdups_spec run_calls_def get_last_city_def ctx_add update_context_cities
      clear_def empty_context_def fortis_def)

subsection \<open>The two intent classifiers\<close>

lemma extract_intent_type:
  "extract_intent mem q = Inr it \<Longrightarrow> intent_type it = intent_type_of (py_lower q)"
  by (auto simp: extract_intent_def Let_def split: if_splits sum.splits)

lemma update_context_intent:
  "last_intent (update_context set_list c q hs) =
     (if any_in [''confirm'', ''check'', ''is''] (py_lower q) then Some ''confirmation''
      else if any_in [''find'', ''show'', ''list'', ''tell''] (py_lower q) then Some ''search''
      else if any_in [''more'', ''other'', ''additional''] (py_lower q) then Some ''followup''
      else last_intent c)"
  by (simp add: update_context_def Let_def)

text \<open>
  Claim C7, as the code has it. The context update has its own rule: \<open>confirmation\<close> when
  the utterance contains \<open>confirm\<close>, \<open>check\<close> or \<open>is\<close>; else \<open>search\<close> when it contains
  \<open>find\<close>, \<open>show\<close>, \<open>list\<close> or \<open>tell\<close>; else \<open>followup\<close> when it contains \<open>more\<close>,
  \<open>other\<close> or \<open>additional\<close>; else the key \<open>last_intent\<close> keeps its value. It agrees with the
  type of the Intent Extractor when the utterance contains \<open>confirm\<close>, \<open>check\<close> or \<open>is\<close>, and
  when it does not contain \<open>verify\<close> and contains a keyword of exactly one of the two other
  groups.
\<close>

theorem memory_intent_rule:
  assumes "extract_intent mem q = Inr it"
  shows "last_intent (ctx (add_interaction set_list m q a hs)) =
           (if any_in [''confirm'', ''check'', ''is''] (py_lower q) then Some ''confirmation''
            else if any_in [''find'', ''show'', ''list'', ''tell''] (py_lower q) then Some ''search''
            else if any_in [''more'', ''other'', ''additional''] (py_lower q) then Some ''followup''
            else last_intent (ctx m))
         \<and> (any_in [''confirm'', ''check'', ''is''] (py_lower q)
              \<or> (\<not> py_in ''verify'' (py_lower q)
                  \<and> (any_in [''find'', ''show'', ''list'', ''tell''] (py_lower q)
                       \<noteq> any_in [''more'', ''other'', ''additional''] (py_lower q)))
             \<longrightarrow> last_intent (ctx (add_interaction set_list m q a hs)) = Some (intent_type it))"
proof -
  have ty: "intent_type it = intent_type_of (py_lower q)"
    using assms by (rule extract_intent_type)
  show ?thesis
    unfolding ty ctx_add update_context_intent intent_type_of_def
    by (auto simp: any_in_def)
qed

lemma lower_show_me_more: "py_lower ''show me more'' = ''show me more''"
  by (simp add: py_lower_def lower_char_def)

lemma lower_verify: "py_lower ''verify apollo'' = ''verify apollo''"
  by (simp add: py_lower_def lower_char_def)

lemma lower_find_delhi: "py_lower ''find hospitals in delhi'' = ''find hospitals in delhi''"
  by (simp add: py_lower_def lower_char_def)

lemma type_show_me_more: "intent_type_of ''show me more'' = ''followup''"
  by (simp add: intent_type_of_def any_in_def)

lemma type_verify: "intent_type_of ''verify apollo'' = ''confirmation''"
  by (simp add: intent_type_of_def any_in_def)

text \<open>
  Claim C7 as stated fails: on \<open>show me more\<close> the extractor says \<open>followup\<close> and the memory
  records \<open>search\<close>; on \<open>verify apollo\<close> the extractor says \<open>confirmation\<close> and the memory
  records nothing.
\<close>

theorem intent_classifiers_differ_counterexample:
  "(\<exists>it. extract_intent (init_memory 10) ''show me more'' = Inr it \<and> intent_type it = ''followup'')
   \<and> last_intent (ctx (add_interaction remdups (init_memory 10) ''show me more'' ''ok'' []))
       = Some ''search''
   \<and> (\<exists>it. extract_intent (init_memory 10) ''verify apollo'' = Inr it
          \<and> intent_type it = ''confirmation'')
   \<and> last_intent (ctx (add_interaction remdups (init_memory 10) ''verify apollo'' ''ok'' []))
       = None"
proof -
  have a: "\<exists>it. extract_intent (init_memory 10) ''show me more'' = Inr it \<and> intent_type it = ''followup''"
    by (simp add: extract_intent_def Let_def lower_show_me_more type_show_me_more
        get_last_city_def init_memory_def empty_context_def
        match_here_def backslash_b_def backslash_def)
  have b: "last_intent (ctx (add_interaction remdups (init_memory 10) ''show me more'' ''ok'' []))
       = Some ''search''"
    by (simp add: ctx_add update_context_intent lower_show_me_more any_in_def)
  have c: "\<exists>it. extract_intent (init_memory 10) ''verify apollo'' = Inr it
          \<and> intent_type it = ''confirmation''"
    by (simp add: extract_intent_def Let_def lower_verify type_verify
        match_here_def backslash_b_def backslash_def)
  have d: "last_intent (ctx (add_interaction remdups (init_memory 10) ''verify apollo'' ''ok'' []))
       = None"
    by (simp add: ctx_add update_context_intent lower_verify any_in_def init_memory_def
        empty_context_def)
  from a b c d show ?thesis by blast
qed

lemma extract_find_delhi:
  "extract_intent (init_memory 10) ''find hospitals in delhi'' =
     Inr \<lparr>intent_type = ''search'', intent_city = Some ''Delhi'', hospital_name = None,
          intent_count = 3\<rparr>"
  by (simp add: extract_intent_def Let_def lower_find_delhi intent_type_of_def any_in_def
      match_here_def backslash_b_def backslash_def py_lower_def lower_char_def upper_char_def)

text \<open>
  The theorem on \<open>find hospitals in delhi\<close>: both classifiers say \<open>search\<close>.
\<close>

theorem memory_intent_rule_witness:
  "extract_intent (init_memory 10) ''find hospitals in delhi'' =
     Inr \<lparr>intent_type = ''search'', intent_city = Some ''Delhi'', hospital_name = None,
          intent_count = 3\<rparr>
   \<and> last_intent (ctx (add_interaction remdups (init_memory 10) ''find hospitals in delhi'' ''ok'' []))
       = Some ''search''"
  using memory_intent_rule [OF extract_find_delhi, of remdups "init_memory 10" "''ok''" "[]"]
  by (simp add: extract_find_delhi lower_find_delhi any_in_def)

section \<open>Properties of the agent\<close>

subsection \<open>The count of the intent\<close>

lemma match_here_no_backslash: "backslash \<notin> set s \<Longrightarrow> match_here s = None"
  by (cases s) (auto simp: match_here_def backslash_b_def)

lemma findall_first_no_backslash: "backslash \<notin> set s \<Longrightarrow> findall_first s = None"
proof (induction s)
  case Nil
  then show ?case by simp
next
  case (Cons c s)
  then have "match_here (c # s) = None" by (intro match_here_no_backslash)
  with Cons show ?case by simp
qed

lemma lower_five_hospitals:
  "py_lower ''show me five hospitals in Delhi'' = ''show me five hospitals in delhi''"
  by (simp add: py_lower_def lower_char_def)

lemma findall_five_hospitals: "findall_first ''show me five hospitals in delhi'' = None"
  by (rule findall_first_no_backslash) (simp add: backslash_def)

text \<open>
  Claim C2 at its own example. The pattern asks for a backslash before and after the
  number, the utterance \<open>show me five hospitals in Delhi\<close> has none, so nothing matches
  and the count stays at its default 3, where the claim says 5. Type and city are as the
  claim says.
\<close>

theorem extract_intent_five_hospitals:
  "extract_intent mem ''show me five hospitals in Delhi'' =
     Inr \<lparr>intent_type = ''search'', intent_city = Some ''Delhi'', hospital_name = None,
          intent_count = 3\<rparr>"
  by (simp add: extract_intent_def Let_def lower_five_hospitals findall_five_hospitals
      intent_type_of_def any_in_def upper_char_def del: findall_first.simps)
    (simp add: py_lower_def lower_char_def)


subsection \<open>Exceptions and the fallback sentence\<close>

lemma search_hospitals_total: "\<exists>hs. search_hospitals argsort eng q k thr = Inr hs"
  by (simp add: search_hospitals_def split: sum.splits)

lemma search_by_name_and_city_total:
  "\<exists>hs. search_by_name_and_city argsort eng nm cty k = Inr hs"
  using search_hospitals_total
  by (simp add: search_by_name_and_city_def split: option.splits sum.splits)

lemma process_query_total:
  "\<exists>r. fst (process_query argsort set_list chat eng ag q first) = Inr r"
proof (cases "process_query_try argsort set_list chat eng ag q first")
  case (Pair outcome ag')
  then show ?thesis
    by (cases outcome) (simp_all add: process_query_def)
qed

text \<open>
  Claim C5. \<open>process_query\<close>, \<open>search_hospitals\<close> and \<open>search_by_name_and_city\<close> end in a
  value on every input: whatever the generator, the vectorizer, the frame and the memory
  do, an exception raised inside is caught and turned into a sentence or a result list.
\<close>

theorem no_exception_escapes:
  "(\<exists>r. fst (process_query argsort set_list chat eng ag q first) = Inr r)
   \<and> (\<exists>hs. search_hospitals argsort eng q k thr = Inr hs)
   \<and> (\<exists>hs. search_by_name_and_city argsort eng nm cty k = Inr hs)"
  using process_query_total search_hospitals_total search_by_name_and_city_total
  by blast

text \<open>
  The quality check reads the reply after \<open>strip\<close>, which removes the no-break space and
  the next-line control like any other white space.
\<close>

lemma clean_strips_latin1_space:
  "clean ([CHR 0xA0, CHR 0x85] @ ''I apologize'' @ [CHR 0x85, CHR 0xA0, CHR 0x20]) = ''I apologize''"
  by (simp add: clean_def strip_def is_space_def backslash_n_def backslash_r_def backslash_def)

lemma attempt_loop_rejected:
  assumes "case chat 1 of Inl e \<Rightarrow> True | Inr c \<Rightarrow> \<not> acceptable (clean c)"
    and "case chat 2 of Inl e \<Rightarrow> True | Inr c \<Rightarrow> \<not> acceptable (clean c)"
  shows "attempt_loop chat [1, 2, 3] =
    (case chat 3 of
       Inl e \<Rightarrow> Inl e
     | Inr c \<Rightarrow> if acceptable (clean c) then Inr (Some (clean c)) else Inr None)"
  using assms by (simp split: sum.splits)

text \<open>
  Claim C4, as the code has it. Take a query that reaches the generation step with result
  set \<open>hs\<close>, and let the first two attempts each raise or fail the quality check. If the
  third attempt returns a text that fails the quality check, \<open>process_query\<close> returns the
  introduction (on a first turn) followed by the templated sentence: the number of results
  and the names of the first three, or the not-found sentence when \<open>hs\<close> is empty; and the
  turn is recorded in memory with that sentence. If the third attempt raises, the
  exception goes to the outer handler: the fixed trouble sentence is returned and the
  memory is left as it was.
\<close>

theorem fallback_after_rejections:
  assumes "ag1 = (if first \<or> \<not> session_started ag then ag\<lparr>session_started := True\<rparr> else ag)"
    and "intro = (if first \<or> \<not> session_started ag then intro_text else [])"
    and "\<not> ((first \<or> \<not> session_started ag)
            \<and> List.member [''hi'', ''hello'', ''hey'', ''start'', ''help''] (py_lower (strip q)))"
    and "is_hospital_related q"
    and "extract_intent (memory ag) q = Inr it"
    and "retrieve argsort eng it q = Inr hs"
    and "p = build_prompt (context_block hs) (get_conversation_context (memory ag)) q"
    and "case chat p 1 of Inl e \<Rightarrow> True | Inr c \<Rightarrow> \<not> acceptable (clean c)"
    and "case chat p 2 of Inl e \<Rightarrow> True | Inr c \<Rightarrow> \<not> acceptable (clean c)"
    and "answer = (if hs \<noteq> []
                   then ''I found '' @ str_nat (length hs) @ '' hospitals: '' @
                        join '', '' (map name (take 3 hs)) @ ''.''
                   else ''I couldn't find that hospital. Could you provide more details?'')"
  shows "(\<forall>c. chat p 3 = Inr c \<and> \<not> acceptable (clean c) \<longrightarrow>
            process_query argsort set_list chat eng ag q first =
              (Inr (intro @ answer),
               ag1\<lparr>memory := add_interaction set_list (memory ag) q answer hs\<rparr>))
         \<and> (\<forall>e. chat p 3 = Inl e \<longrightarrow>
              process_query argsort set_list chat eng ag q first = (Inr trouble_message, ag1))"
proof -
  have mem: "memory ag1 = memory ag"
    by (simp add: assms(1))
  have ans: "answer = fallback_answer hs"
    by (simp add: assms(10) fallback_answer_def py_take_def)
  have loop: "attempt_loop (chat p) [1, 2, 3] =
    (case chat p 3 of
       Inl e \<Rightarrow> Inl e
     | Inr c \<Rightarrow> if acceptable (clean c) then Inr (Some (clean c)) else Inr None)"
    using assms(8,9) by (rule attempt_loop_rejected)
  have body: "process_query_try argsort set_list chat eng ag q first =
    (case attempt_loop (chat p) [1, 2, 3] of
       Inl e \<Rightarrow> (Inl e, ag1)
     | Inr (Some a) \<Rightarrow>
         (Inr (intro @ a), ag1\<lparr>memory := add_interaction set_list (memory ag1) q a hs\<rparr>)
     | Inr None \<Rightarrow>
         (Inr (intro @ fallback_answer hs),
          ag1\<lparr>memory := add_interaction set_list (memory ag1) q (fallback_answer hs) hs\<rparr>))"
    using assms(3,4,5,6)
    unfolding process_query_try_def Let_def assms(1,2,7)
    by (auto simp del: attempt_loop.simps)
  show ?thesis
    unfolding process_query_def body loop
    by (simp add: mem ans)
qed

lemma demo_delhi: "demo_transform ''find hospitals in delhi'' = Inr [0, 1]"
  by (simp add: demo_transform_def py_lower_def lower_char_def)

lemma demo_sims_delhi: "cosine_similarity [0, 1] [[1, 0], [1, 0], [0, 1]] = Inr [0, 0, 1]"
  by (simp add: cosine_similarity_def normalize_def dot_def)

lemma demo_argsort_delhi: "stable_argsort [0, 0, 1] = [0, 1, 2]"
  by (simp add: stable_argsort_def upt_rec)

lemma demo_search_delhi:
  "search_hospitals stable_argsort demo_engine ''find hospitals in delhi'' 3 default_score_threshold =
     Inr [mk_hospital demo_engine [0, 0, 1] 2]"
  by (simp add: search_hospitals_def search_hospitals_try_def demo_delhi demo_sims_delhi
      top_indices_def demo_argsort_delhi py_take_def demo_fields default_score_threshold_def)

lemma demo_retrieve_delhi:
  "retrieve stable_argsort demo_engine
     \<lparr>intent_type = ''search'', intent_city = Some ''Delhi'', hospital_name = None, intent_count = 3\<rparr>
     ''find hospitals in delhi'' = Inr [mk_hospital demo_engine [0, 0, 1] 2]"
  by (simp add: retrieve_def demo_search_delhi)

lemma related_find_delhi: "is_hospital_related ''find hospitals in delhi''"
  by (simp add: is_hospital_related_def lower_find_delhi any_in_def)

lemma strip_find_delhi:
  "py_lower (strip ''find hospitals in delhi'') = ''find hospitals in delhi''"
  by (simp add: strip_def is_space_def py_lower_def lower_char_def)

lemma clean_no: "clean ''no'' = ''no''"
  by (simp add: clean_def strip_def is_space_def backslash_n_def backslash_r_def backslash_def)

lemma not_acceptable_no: "\<not> acceptable (clean ''no'')"
  by (simp add: clean_no acceptable_def)

lemma name_fortis: "name (mk_hospital demo_engine [0, 0, 1] 2) = ''Fortis Hospital''"
  by (simp add: mk_hospital_def demo_engine_def)

lemma str_nat_1: "str_nat (Suc 0) = ''1''"
  by (simp add: str_nat.simps digit_char_def)

lemma process_find_delhi_rejected:
  "process_query stable_argsort remdups (\<lambda>p n. Inr ''no'') demo_engine init_agent
     ''find hospitals in delhi'' False =
   (Inr (intro_text @ ''I found 1 hospitals: Fortis Hospital.''),
    init_agent\<lparr>session_started := True,
      memory := add_interaction remdups (init_memory 10) ''find hospitals in delhi''
        ''I found 1 hospitals: Fortis Hospital.'' [mk_hospital demo_engine [0, 0, 1] 2]\<rparr>)"
proof -
  have "process_query stable_argsort remdups (\<lambda>p n. Inr ''no'') demo_engine init_agent
     ''find hospitals in delhi'' False =
     (Inr (intro_text @ fallback_answer [mk_hospital demo_engine [0, 0, 1] 2]),
      init_agent\<lparr>session_started := True,
        memory := add_interaction remdups (init_memory 10) ''find hospitals in delhi''
          (fallback_answer [mk_hospital demo_engine [0, 0, 1] 2])
          [mk_hospital demo_engine [0, 0, 1] 2]\<rparr>)"
    unfolding process_query_def process_query_try_def Let_def
    by (simp add: init_agent_def strip_find_delhi related_find_delhi extract_find_delhi
        demo_retrieve_delhi not_acceptable_no)
  moreover have "fallback_answer [mk_hospital demo_engine [0, 0, 1] 2] =
      ''I found 1 hospitals: Fortis Hospital.''"
    by (simp add: fallback_answer_def py_take_def name_fortis str_nat_1)
  ultimately show ?thesis by simp
qed

lemma process_find_delhi_raising:
  "process_query stable_argsort remdups (\<lambda>p n. Inl CollaboratorError) demo_engine init_agent
     ''find hospitals in delhi'' False =
   (Inr trouble_message, init_agent\<lparr>session_started := True\<rparr>)"
  unfolding process_query_def process_query_try_def Let_def
  by (simp add: init_agent_def strip_find_delhi related_find_delhi extract_find_delhi
      demo_retrieve_delhi)

text \<open>
  The theorem on the demo catalog, with a generator that answers \<open>no\<close> at every attempt.
\<close>

theorem fallback_after_rejections_witness:
  "process_query stable_argsort remdups (\<lambda>p n. Inr ''no'') demo_engine init_agent
     ''find hospitals in delhi'' False =
   (Inr (''Hello! I'm Loop AI Health Assistant. '' @ ''I found 1 hospitals: Fortis Hospital.''),
    init_agent\<lparr>session_started := True,
      memory := add_interaction remdups (init_memory 10) ''find hospitals in delhi''
        ''I found 1 hospitals: Fortis Hospital.'' [mk_hospital demo_engine [0, 0, 1] 2]\<rparr>)"
proof -
  let ?hs = "[mk_hospital demo_engine [0, 0, 1] 2]"
  let ?it = "\<lparr>intent_type = ''search'', intent_city = Some ''Delhi'', hospital_name = None,
              intent_count = 3\<rparr>"
  let ?chat = "\<lambda>(p::string) (n::nat). (Inr ''no'' :: py_error + string)"
  have h1: "init_agent\<lparr>session_started := True\<rparr> =
      (if False \<or> \<not> session_started init_agent then init_agent\<lparr>session_started := True\<rparr>
       else init_agent)"
    by (simp add: init_agent_def)
  have h2: "intro_text = (if False \<or> \<not> session_started init_agent then intro_text else [])"
    by (simp add: init_agent_def)
  have h3: "\<not> ((False \<or> \<not> session_started init_agent)
            \<and> List.member [''hi'', ''hello'', ''hey'', ''start'', ''help'']
                 (py_lower (strip ''find hospitals in delhi'')))"
    by (simp add: strip_find_delhi)
  have h5: "extract_intent (memory init_agent) ''find hospitals in delhi'' = Inr ?it"
    by (simp add: init_agent_def extract_find_delhi)
  have h8: "case ?chat p 1 of Inl e \<Rightarrow> True | Inr c \<Rightarrow> \<not> acceptable (clean c)" for p
    by (simp add: not_acceptable_no)
  have h9: "case ?chat p 2 of Inl e \<Rightarrow> True | Inr c \<Rightarrow> \<not> acceptable (clean c)" for p
    by (simp add: not_acceptable_no)
  have h10: "''I found 1 hospitals: Fortis Hospital.'' =
     (if ?hs \<noteq> []
      then ''I found '' @ str_nat (length ?hs) @ '' hospitals: '' @
           join '', '' (map name (take 3 ?hs)) @ ''.''
      else ''I couldn't find that hospital. Could you provide more details?'')"
    by (simp add: name_fortis str_nat_1)
  from fallback_after_rejections [where chat = ?chat, OF h1 h2 h3 related_find_delhi h5
      demo_retrieve_delhi refl h8 h9 h10, of remdups]
  show ?thesis
    by (simp add: not_acceptable_no init_agent_def intro_text_def)
qed

text \<open>
  Claim C4 as stated fails. When the generator raises at all three attempts the result is
  the trouble sentence and no turn is recorded. When all three answers are rejected the
  templated sentence names the hospital without its city.
\<close>

theorem fallback_claim_counterexample:
  "process_query stable_argsort remdups (\<lambda>p n. Inl CollaboratorError) demo_engine init_agent
     ''find hospitals in delhi'' False =
     (Inr ''I'm having trouble processing your request. Please try again.'',
      init_agent\<lparr>session_started := True\<rparr>)
   \<and> history (memory (init_agent\<lparr>session_started := True\<rparr>)) = []
   \<and> fst (process_query stable_argsort remdups (\<lambda>p n. Inr ''no'') demo_engine init_agent
        ''find hospitals in delhi'' False) =
       Inr ''Hello! I'm Loop AI Health Assistant. I found 1 hospitals: Fortis Hospital.''
   \<and> city (mk_hospital demo_engine [0, 0, 1] 2) = ''Delhi''
   \<and> \<not> py_in ''Delhi'' ''Hello! I'm Loop AI Health Assistant. I found 1 hospitals: Fortis Hospital.''"
proof -
  have a: "process_query stable_argsort remdups (\<lambda>p n. Inl CollaboratorError) demo_engine init_agent
     ''find hospitals in delhi'' False =
     (Inr ''I'm having trouble processing your request. Please try again.'',
      init_agent\<lparr>session_started := True\<rparr>)"
    unfolding process_find_delhi_raising by (simp add: trouble_message_def)
  have b: "history (memory (init_agent\<lparr>session_started := True\<rparr>)) = []"
    by (simp add: init_agent_def init_memory_def)
  have c: "fst (process_query stable_argsort remdups (\<lambda>p n. Inr ''no'') demo_engine init_agent
        ''find hospitals in delhi'' False) =
       Inr ''Hello! I'm Loop AI Health Assistant. I found 1 hospitals: Fortis Hospital.''"
    unfolding process_find_delhi_rejected by (simp add: intro_text_def)
  have d: "city (mk_hospital demo_engine [0, 0, 1] 2) = ''Delhi''"
    by (simp add: mk_hospital_def demo_engine_def)
  have e: "\<not> py_in ''Delhi'' ''Hello! I'm Loop AI Health Assistant. I found 1 hospitals: Fortis Hospital.''"
    by simp
  from a b c d e show ?thesis by blast
qed

lemma broken_search: "search_hospitals argsort broken_engine q k thr = Inr []"
  by (simp add: search_hospitals_def search_hospitals_try_def broken_engine_def demo_engine_def)

lemma broken_frame: "hospitals_df broken_engine = Some \<lparr>df_columns = [], df_rows = []\<rparr>"
  by (simp add: broken_engine_def)

lemma broken_by_name_try:
  "search_by_name_try argsort eng \<lparr>df_columns = [], df_rows = []\<rparr> nm cty k = Inl KeyError"
  by (simp add: search_by_name_try_def first_pass_def build_mask_def column_def)

lemma broken_by_name: "search_by_name_and_city argsort broken_engine nm cty k = Inr []"
  by (simp add: search_by_name_and_city_def broken_frame broken_by_name_try broken_search)

lemma broken_process:
  "process_query stable_argsort remdups (\<lambda>p n. Inl CollaboratorError) broken_engine init_agent
     ''find hospitals in delhi'' False = (Inr trouble_message, init_agent\<lparr>session_started := True\<rparr>)"
  unfolding process_query_def process_query_try_def Let_def
  by (simp add: init_agent_def strip_find_delhi related_find_delhi extract_find_delhi
      retrieve_def broken_search)

text \<open>
  The theorem on the damaged engine with a generator that raises at every attempt.
\<close>

theorem no_exception_escapes_witness:
  "fst (process_query stable_argsort remdups (\<lambda>p n. Inl CollaboratorError) broken_engine
          init_agent ''find hospitals in delhi'' False) = Inr trouble_message
   \<and> search_hospitals stable_argsort broken_engine ''find hospitals in delhi'' 3
        default_score_threshold = Inr []
   \<and> search_by_name_and_city stable_argsort broken_engine ''Fortis'' (Some ''Delhi'') 3 = Inr []"
  using no_exception_escapes [of stable_argsort remdups "\<lambda>p n. Inl CollaboratorError"
      broken_engine init_agent "''find hospitals in delhi''" False 3 default_score_threshold
      "''Fortis''" "Some ''Delhi''"]
  by (simp add: broken_process broken_search broken_by_name)

text \<open>On that input each of the three \<open>try\<close> bodies does raise.\<close>

lemma try_body_raises:
  "fst (process_query_try stable_argsort remdups (\<lambda>p n. Inl CollaboratorError) broken_engine
          init_agent ''find hospitals in delhi'' False) = Inl CollaboratorError
   \<and> search_hospitals_try stable_argsort broken_engine ''find hospitals in delhi'' 3
        default_score_threshold = Inl ValueError
   \<and> search_by_name_try stable_argsort broken_engine \<lparr>df_columns = [], df_rows = []\<rparr> ''Fortis''
        (Some ''Delhi'') 3 = Inl KeyError"
proof -
  have "fst (process_query_try stable_argsort remdups (\<lambda>p n. Inl CollaboratorError) broken_engine
          init_agent ''find hospitals in delhi'' False) = Inl CollaboratorError"
    unfolding process_query_try_def Let_def
    by (simp add: init_agent_def strip_find_delhi related_find_delhi extract_find_delhi
        retrieve_def broken_search)
  moreover have "search_hospitals_try stable_argsort broken_engine ''find hospitals in delhi'' 3
        default_score_threshold = Inl ValueError"
    by (simp add: search_hospitals_try_def broken_engine_def demo_engine_def)
  moreover have "search_by_name_try stable_argsort broken_engine \<lparr>df_columns = [], df_rows = []\<rparr>
        ''Fortis'' (Some ''Delhi'') 3 = Inl KeyError"
    by (simp add: search_by_name_try_def first_pass_def build_mask_def column_def)
  ultimately show ?thesis by blast
qed

end
